theory Spec2Isabelle
  imports Complex_Main "HOL-Library.Multiset"
begin

section \<open>Python values and exceptions\<close>

text \<open>
  The module \<^verbatim>\<open>ecco_access/ecco_s3_retrieve.py\<close> is embedded function by function.
  A raised exception is the left summand of a result; the classes that the module can
  raise or meet are listed here. \<open>PyException\<close> is the plain \<^verbatim>\<open>Exception(msg)\<close> of the
  source.
\<close>

datatype pyexc =
    PyException string
  | NameError string
  | KeyError string
  | IndexError
  | TypeError
  | ValueError
  | OSError string

section \<open>Strings and \<^verbatim>\<open>os.path\<close>\<close>

text \<open>\<^verbatim>\<open>sub in s\<close> on strings: \<open>sub\<close> occurs in \<open>s\<close> as a contiguous block.\<close>

primrec str_in :: "string \<Rightarrow> string \<Rightarrow> bool" where
  "str_in sub [] = (sub = [])"
| "str_in sub (c # cs) = (take (length sub) (c # cs) = sub \<or> str_in sub cs)"

text \<open>
  \<^verbatim>\<open>posixpath.basename\<close>: what follows the last slash.
  \<^verbatim>\<open>posixpath.split\<close>: head and tail around the last slash, the head stripped of
  its trailing slashes unless it consists of slashes only.
  \<^verbatim>\<open>posixpath.join(a, *p)\<close>: a component that starts with a slash replaces what came
  before it, otherwise it is appended after exactly one separator.
\<close>

definition basename :: "string \<Rightarrow> string" where
  "basename p = rev (takeWhile (\<lambda>c. c \<noteq> CHR ''/'') (rev p))"

definition rstrip_slash :: "string \<Rightarrow> string" where
  "rstrip_slash p = rev (dropWhile (\<lambda>c. c = CHR ''/'') (rev p))"

definition split_path :: "string \<Rightarrow> string \<times> string" where
  "split_path p =
     (let tail = basename p;
          head = take (length p - length tail) p
      in (if head \<noteq> [] \<and> head \<noteq> replicate (length head) (CHR ''/'')
          then rstrip_slash head else head, tail))"

definition join_step :: "string \<Rightarrow> string \<Rightarrow> string" where
  "join_step path b =
     (if take 1 b = ''/'' then b
      else if path = [] \<or> last path = CHR ''/'' then path @ b
      else path @ ''/'' @ b)"

definition join :: "string \<Rightarrow> string list \<Rightarrow> string" where
  "join a p = foldl join_step a p"

section \<open>The local file system and the object store\<close>

text \<open>
  The local file system is what \<^verbatim>\<open>isdir\<close> and \<^verbatim>\<open>isfile\<close> answer for each path
  string. The world adds the log of the transfers requested from the object store: one
  entry (remote reference, local target) for each call of \<^verbatim>\<open>s3.get_file\<close>.
\<close>

record fsys =
  dirs :: "string set"
  files :: "string set"

definition isdir :: "fsys \<Rightarrow> string \<Rightarrow> bool" where
  "isdir f p = (p \<in> dirs f)"

definition isfile :: "fsys \<Rightarrow> string \<Rightarrow> bool" where
  "isfile f p = (p \<in> files f)"

record world =
  fs :: fsys
  net_log :: "(string \<times> string) list"

datatype s3file = S3File string

text \<open>
  The handle \<^verbatim>\<open>s3\<close> is an object of the external library \<^verbatim>\<open>s3fs\<close>. The module
  calls three of its methods; each is a field here, so that every theorem holds for
  every behaviour of the store. \<open>get_file\<close> returns the exception it raised, if any,
  and the file system it left behind.
\<close>

record s3fs =
  get_file :: "string \<Rightarrow> string \<Rightarrow> fsys \<Rightarrow> pyexc option \<times> fsys"
  info_size :: "string \<Rightarrow> pyexc + nat"
  s3_open :: "string \<Rightarrow> pyexc + s3file"

section \<open>\<^verbatim>\<open>download_file\<close>\<close>

definition download_file ::
  "s3fs \<Rightarrow> string \<Rightarrow> string \<Rightarrow> bool \<Rightarrow> world \<Rightarrow> (pyexc + string) \<times> world" where
  "download_file s3 url output_dir force w =
     (if \<not> isdir (fs w) output_dir
      then (Inl (PyException (''Output directory doesn't exist! ('' @ output_dir @ '')'')), w)
      else
        let target_file = join output_dir [basename url] in
        if isfile (fs w) target_file \<and> \<not> force then (Inr target_file, w)
        else
          (case get_file s3 url target_file (fs w) of
             (Some e, f') \<Rightarrow>
               (Inl e, \<lparr>fs = f', net_log = net_log w @ [(url, target_file)]\<rparr>)
           | (None, f') \<Rightarrow>
               (Inr target_file, \<lparr>fs = f', net_log = net_log w @ [(url, target_file)]\<rparr>)))"

section \<open>\<^verbatim>\<open>download_files_concurrently\<close> and \<^verbatim>\<open>download_files_s3_wrapper\<close>\<close>

text \<open>
  A global name of a function body is looked up when the body runs, in the module's
  namespace and then in the builtins. \<open>module_globals\<close> lists what the module binds at
  top level: its imports (lines 4 to 19) and its ten \<^verbatim>\<open>def\<close>s. The import of
  \<^verbatim>\<open>ThreadPoolExecutor\<close> on line 495 is local to \<^verbatim>\<open>ecco_podaac_s3_get\<close> and binds
  nothing here. \<open>builtin_names\<close> lists the builtins the two download functions use.
\<close>

definition module_globals :: "string list" where
  "module_globals =
     [''date_adjustment'', ''np'', ''pd'', ''requests'', ''time'', ''os'',
      ''basename'', ''isfile'', ''isdir'', ''join'', ''expanduser'', ''Path'',
      ''system'', ''netrc'', ''request'', ''CookieJar'', ''getpass'',
      ''setup_earthdata_login_auth'', ''ecco_podaac_s3_query'', ''init_S3FileSystem'',
      ''download_file'', ''download_files_concurrently'', ''download_files_s3_wrapper'',
      ''ecco_podaac_s3_open'', ''ecco_podaac_s3_open_fsspec'', ''ecco_podaac_s3_get'',
      ''ecco_podaac_s3_get_diskaware'']"

definition builtin_names :: "string list" where
  "builtin_names = [''list'', ''len'', ''print'', ''str'']"

definition lookup_name :: "string \<Rightarrow> pyexc option" where
  "lookup_name n =
     (if n \<in> set module_globals \<or> n \<in> set builtin_names then None
      else Some (NameError n))"

text \<open>The first unbound name among those a body evaluates, in evaluation order.\<close>

fun lookup_names :: "string list \<Rightarrow> pyexc option" where
  "lookup_names [] = None"
| "lookup_names (n # ns) =
     (case lookup_name n of Some e \<Rightarrow> Some e | None \<Rightarrow> lookup_names ns)"

text \<open>
  The loop of the sequential branch (lines 297 to 302): \<^verbatim>\<open>downloaded_files\<close> is the
  accumulator, and the first exception of \<^verbatim>\<open>download_file\<close> leaves the loop.
\<close>

fun download_loop ::
  "s3fs \<Rightarrow> string list \<Rightarrow> string \<Rightarrow> bool \<Rightarrow> string list \<Rightarrow> world
     \<Rightarrow> (pyexc + string list) \<times> world" where
  "download_loop s3 [] download_dir force downloaded_files w = (Inr downloaded_files, w)"
| "download_loop s3 (u # us) download_dir force downloaded_files w =
     (case download_file s3 u download_dir force w of
        (Inl e, w') \<Rightarrow> (Inl e, w')
      | (Inr result, w') \<Rightarrow>
          download_loop s3 us download_dir force (downloaded_files @ [result]) w')"

text \<open>
  \<^verbatim>\<open>download_files_concurrently\<close> evaluates \<^verbatim>\<open>time\<close> (line 252), then
  \<^verbatim>\<open>ThreadPoolExecutor\<close> (line 255), then on line 258 \<^verbatim>\<open>list\<close>, \<^verbatim>\<open>tqdm\<close>,
  \<^verbatim>\<open>download_file\<close>, \<^verbatim>\<open>repeat\<close>, \<^verbatim>\<open>len\<close> and \<^verbatim>\<open>sys\<close>. What the thread pool would
  do after these lookups is written as the in-order map that \<^verbatim>\<open>executor.map\<close>
  returns; the interleaving of the workers is not modelled.
\<close>

definition download_files_concurrently ::
  "s3fs \<Rightarrow> string list \<Rightarrow> string \<Rightarrow> nat \<Rightarrow> bool \<Rightarrow> world
     \<Rightarrow> (pyexc + string list) \<times> world" where
  "download_files_concurrently s3 dls download_dir n_workers force w =
     (case lookup_names [''time'', ''ThreadPoolExecutor'', ''list'', ''tqdm'',
                         ''download_file'', ''repeat'', ''len'', ''sys''] of
        Some e \<Rightarrow> (Inl e, w)
      | None \<Rightarrow> download_loop s3 dls download_dir force [] w)"

text \<open>
  \<^verbatim>\<open>download_files_s3_wrapper\<close>: the \<^verbatim>\<open>return\<close> of line 311 stands inside the
  \<^verbatim>\<open>except\<close> block. When the \<^verbatim>\<open>try\<close> block ends without an exception the function
  runs off its end and returns \<^verbatim>\<open>None\<close>, which is the result \<open>Inr None\<close> here. The
  bare \<^verbatim>\<open>except\<close> catches every exception of the \<^verbatim>\<open>try\<close> block.
\<close>

definition download_files_s3_wrapper ::
  "s3fs \<Rightarrow> string list \<Rightarrow> string \<Rightarrow> nat \<Rightarrow> bool \<Rightarrow> world
     \<Rightarrow> (pyexc + string list option) \<times> world" where
  "download_files_s3_wrapper s3 s3_files_list download_dir n_workers force_redownload w =
     (case download_files_concurrently s3 s3_files_list download_dir n_workers
             force_redownload w of
        (Inr downloaded_files, w') \<Rightarrow> (Inr None, w')
      | (Inl e, w') \<Rightarrow>
          (case download_loop s3 s3_files_list download_dir force_redownload [] w' of
             (Inl e', w'') \<Rightarrow> (Inl e', w'')
           | (Inr downloaded_files, w'') \<Rightarrow> (Inr (Some downloaded_files), w'')))"

text \<open>
  The comparison point of the refinement claim, written from its words: a plain
  sequential loop of \<^verbatim>\<open>download_file\<close> over the URL list, returning the paths in
  order and stopping at the first exception.
\<close>

fun sequential_downloads ::
  "s3fs \<Rightarrow> string list \<Rightarrow> string \<Rightarrow> bool \<Rightarrow> world \<Rightarrow> (pyexc + string list) \<times> world" where
  "sequential_downloads s3 [] download_dir force w = (Inr [], w)"
| "sequential_downloads s3 (u # us) download_dir force w =
     (case download_file s3 u download_dir force w of
        (Inl e, w') \<Rightarrow> (Inl e, w')
      | (Inr p, w') \<Rightarrow>
          (case sequential_downloads s3 us download_dir force w' of
             (Inl e, w'') \<Rightarrow> (Inl e, w'')
           | (Inr ps, w'') \<Rightarrow> (Inr (p # ps), w'')))"






section \<open>The catalog query: \<^verbatim>\<open>ecco_podaac_s3_query\<close>\<close>

text \<open>
  A catalog response is the JSON object of \<^verbatim>\<open>requests.get(...).json()\<close>: it may hold
  a \<^verbatim>\<open>feed\<close> with its \<^verbatim>\<open>entry\<close> list, an \<^verbatim>\<open>errors\<close> list, both or neither. An
  entry holds the keys the module reads.
\<close>

record link =
  title :: string
  href :: string

record entry =
  time_start :: string
  time_end :: string
  links :: "link list"

record response =
  feed :: "entry list option"
  errors :: "string list option"

record params =
  p_ShortName :: string
  p_temporal :: string

text \<open>
  What the module takes from outside its own file is a field of the environment:
  \<^item> \<open>date_adjustment\<close> is imported from \<^verbatim>\<open>ecco_acc_dates\<close> (line 4), with
    \<^verbatim>\<open>CMR_query=True\<close>; it returns the adjusted dates and \<^verbatim>\<open>SingleDay_flag\<close>;
  \<^item> \<open>setup_earthdata_login_auth\<close> is the outcome of installing the credentials
    (lines 22 to 51), which has no part in the values computed afterwards;
  \<^item> \<open>get_results\<close> is the catalog service behind line 99, asked with the page size
    of 2000 that \<^verbatim>\<open>set_params\<close> adds;
  \<^item> \<open>datetime64_D\<close>, \<open>datetime64_ns\<close> and \<open>str_D\<close> are \<^verbatim>\<open>np.datetime64(s,'D')\<close> as a
    day number, \<^verbatim>\<open>np.datetime64(s,'ns')\<close> as a number of nanoseconds, and \<^verbatim>\<open>str\<close> of
    a day;
  \<^item> \<open>init_S3FileSystem\<close> is the outcome of lines 194 to 200;
  \<^item> \<open>default_root\<close> is \<^verbatim>\<open>join(expanduser('~'),'Downloads','ECCO_V4r4_PODAAC')\<close>,
    \<open>path_div\<close> is the string of \<^verbatim>\<open>Path(root) / name\<close>, \<open>mkdir\<close> is
    \<^verbatim>\<open>Path.mkdir(exist_ok=True, parents=True)\<close> and \<open>disk_usage_free\<close> is
    \<^verbatim>\<open>shutil.disk_usage(dir).free\<close>, \<open>None\<close> when it raises.
\<close>

record env =
  date_adjustment :: "string \<Rightarrow> string \<Rightarrow> string \<Rightarrow> pyexc + (string \<times> string \<times> bool)"
  setup_earthdata_login_auth :: "pyexc option"
  get_results :: "params \<Rightarrow> pyexc + response"
  datetime64_D :: "string \<Rightarrow> int"
  datetime64_ns :: "string \<Rightarrow> int"
  str_D :: "int \<Rightarrow> string"
  init_S3FileSystem :: "pyexc + s3fs"
  default_root :: string
  path_div :: "string \<Rightarrow> string \<Rightarrow> string"
  mkdir :: "string \<Rightarrow> fsys \<Rightarrow> pyexc option \<times> fsys"
  disk_usage_free :: "fsys \<Rightarrow> string \<Rightarrow> nat option"

text \<open>Lines 113 to 116: the first link whose title names the direct S3 access.\<close>

fun first_s3_link :: "link list \<Rightarrow> string option" where
  "first_s3_link [] = None"
| "first_s3_link (curr_link # ls) =
     (if str_in ''direct download access via S3'' (title curr_link)
      then Some (href curr_link) else first_s3_link ls)"

text \<open>
  Lines 111 to 116: every entry appends its start time to \<^verbatim>\<open>time_start\<close>; it appends
  to \<^verbatim>\<open>s3_files_list\<close> only when one of its links is the direct S3 link.
\<close>

fun collect_entries ::
  "env \<Rightarrow> entry list \<Rightarrow> int list \<Rightarrow> string list \<Rightarrow> int list \<times> string list" where
  "collect_entries ev [] time_starts s3_files_list = (time_starts, s3_files_list)"
| "collect_entries ev (curr_entry # es) time_starts s3_files_list =
     collect_entries ev es
       (time_starts @ [datetime64_ns ev (time_start curr_entry)])
       (case first_s3_link (links curr_entry) of
          Some h \<Rightarrow> s3_files_list @ [h]
        | None \<Rightarrow> s3_files_list)"

text \<open>Lines 125 and 126: the new value of \<^verbatim>\<open>params['temporal']\<close> after a full page.\<close>

definition next_temporal :: "env \<Rightarrow> string \<Rightarrow> entry list \<Rightarrow> string" where
  "next_temporal ev temporal entries =
     str_D ev (datetime64_D ev (time_end (last entries)) + 1) @ drop 10 temporal"

text \<open>
  The \<^verbatim>\<open>while\<close> loop of lines 108 to 126. Nothing bounds the number of full pages the
  service may return, so the loop is a partial function: \<open>None\<close> is a run that never
  ends. The third accumulator is the log of the \<^verbatim>\<open>temporal\<close> values requested.
\<close>

partial_function (option) granules_loop ::
  "env \<Rightarrow> params \<Rightarrow> int list \<Rightarrow> string list \<Rightarrow> string list
     \<Rightarrow> (pyexc + int list \<times> string list \<times> string list) option" where
  "granules_loop ev ps time_starts s3_files_list requested =
     (case get_results ev ps of
        Inl e \<Rightarrow> Some (Inl e)
      | Inr response \<Rightarrow>
          (case feed response of
             Some entries \<Rightarrow>
               (if length entries < 2000
                then Some (Inr (fst (collect_entries ev entries time_starts s3_files_list),
                                snd (collect_entries ev entries time_starts s3_files_list),
                                requested @ [p_temporal ps]))
                else granules_loop ev
                       (ps\<lparr>p_temporal := next_temporal ev (p_temporal ps) entries\<rparr>)
                       (fst (collect_entries ev entries time_starts s3_files_list))
                       (snd (collect_entries ev entries time_starts s3_files_list))
                       (requested @ [p_temporal ps]))
           | None \<Rightarrow>
               (case errors response of
                  Some [] \<Rightarrow> Some (Inl IndexError)
                | Some (m # ms) \<Rightarrow> Some (Inl (PyException m))
                | None \<Rightarrow> Some (Inl (KeyError ''feed'')))))"

text \<open>\<^verbatim>\<open>np.argmin\<close>: the index of the first least element; an empty array raises.\<close>

primrec argmin_from :: "int list \<Rightarrow> nat" where
  "argmin_from [] = 0"
| "argmin_from (x # xs) = (if list_all (\<lambda>y. x \<le> y) xs then 0 else Suc (argmin_from xs))"

definition argmin :: "int list \<Rightarrow> pyexc + nat" where
  "argmin xs = (if xs = [] then Inl ValueError else Inr (argmin_from xs))"

text \<open>
  Subtracting a day from nanosecond timestamps (line 131) converts the day to
  nanoseconds. The 64-bit range of \<^verbatim>\<open>datetime64[ns]\<close> (years 1678 to 2262) is not
  modelled.
\<close>

definition ns_of_day :: "int \<Rightarrow> int" where
  "ns_of_day d = d * 86400000000000"

text \<open>
  \<^verbatim>\<open>get_granules\<close> (lines 104 to 134). \<^verbatim>\<open>StartDate\<close> on line 131 is the variable of
  the enclosing function, read when \<^verbatim>\<open>get_granules\<close> runs: it is an argument here.
\<close>

definition get_granules ::
  "env \<Rightarrow> params \<Rightarrow> string \<Rightarrow> bool \<Rightarrow> string \<Rightarrow> (pyexc + string list) option" where
  "get_granules ev ps ShortName SingleDay_flag StartDate =
     (case granules_loop ev ps [] [] [] of
        None \<Rightarrow> None
      | Some (Inl e) \<Rightarrow> Some (Inl e)
      | Some (Inr (time_starts, s3_files_list, requested)) \<Rightarrow>
          (if (str_in ''MONTHLY'' ShortName \<or> str_in ''DAILY'' ShortName)
              \<and> SingleDay_flag \<and> length s3_files_list > 1
           then
             (case argmin (map (\<lambda>t. \<bar>t - ns_of_day (datetime64_D ev StartDate)\<bar>) time_starts) of
                Inl e \<Rightarrow> Some (Inl e)
              | Inr day_index \<Rightarrow> Some (Inr (take 1 (drop day_index s3_files_list))))
           else Some (Inr s3_files_list)))"

text \<open>
  \<^verbatim>\<open>re.findall("_[0-9]{4}-[0-9]{2}-[0-9]{2}", s)[0]\<close>: the leftmost match, an
  \<^verbatim>\<open>IndexError\<close> when there is none.
\<close>

definition is_digit :: "char \<Rightarrow> bool" where
  "is_digit c = (c \<in> set ''0123456789'')"

definition match_date :: "string \<Rightarrow> string option" where
  "match_date s =
     (let m = take 11 s in
      if length m = 11 \<and> m ! 0 = CHR ''_''
         \<and> list_all is_digit (take 4 (drop 1 m)) \<and> m ! 5 = CHR ''-''
         \<and> list_all is_digit (take 2 (drop 6 m)) \<and> m ! 8 = CHR ''-''
         \<and> list_all is_digit (take 2 (drop 9 m))
      then Some m else None)"

primrec findall_first :: "string \<Rightarrow> string option" where
  "findall_first [] = None"
| "findall_first (c # cs) =
     (case match_date (c # cs) of Some m \<Rightarrow> Some m | None \<Rightarrow> findall_first cs)"

text \<open>
  Lines 163 to 168: the loop runs over the list, and removes from the copy the first
  occurrence of each reference whose day of the month is not \<^verbatim>\<open>01\<close>.
\<close>

fun monthly_filter :: "string list \<Rightarrow> string list \<Rightarrow> pyexc + string list" where
  "monthly_filter [] s3_files_list_copy = Inr s3_files_list_copy"
| "monthly_filter (s3_file # rest) s3_files_list_copy =
     (case findall_first s3_file of
        None \<Rightarrow> Inl IndexError
      | Some m \<Rightarrow>
          (let snapshot_date = drop 1 m in
           if drop 8 snapshot_date \<noteq> ''01''
           then monthly_filter rest (remove1 s3_file s3_files_list_copy)
           else monthly_filter rest s3_files_list_copy))"

definition ecco_podaac_s3_query ::
  "env \<Rightarrow> string \<Rightarrow> string \<Rightarrow> string \<Rightarrow> string \<Rightarrow> (pyexc + string list) option" where
  "ecco_podaac_s3_query ev ShortName StartDate EndDate snapshot_interval =
     (case date_adjustment ev ShortName StartDate EndDate of
        Inl e \<Rightarrow> Some (Inl e)
      | Inr (StartDate', EndDate', SingleDay_flag) \<Rightarrow>
          (case setup_earthdata_login_auth ev of
             Some e \<Rightarrow> Some (Inl e)
           | None \<Rightarrow>
               (case get_granules ev
                       \<lparr>p_ShortName = ShortName, p_temporal = StartDate' @ '','' @ EndDate'\<rparr>
                       ShortName SingleDay_flag StartDate' of
                  None \<Rightarrow> None
                | Some (Inl e) \<Rightarrow> Some (Inl e)
                | Some (Inr s3_files_list) \<Rightarrow>
                    (if str_in ''SNAPSHOT'' ShortName \<and> snapshot_interval = ''monthly''
                     then Some (monthly_filter s3_files_list s3_files_list)
                     else Some (Inr s3_files_list)))))"

section \<open>\<^verbatim>\<open>ecco_podaac_s3_open\<close> and \<^verbatim>\<open>ecco_podaac_s3_get\<close>\<close>

text \<open>
  A result that the module hands back as \<^verbatim>\<open>str or list\<close>: the single item itself when
  the list has length 1 (lines 360, 521, 667, 682), the list otherwise.
\<close>

datatype 'a retrieved = Scalar 'a | Items "'a list"

definition collapse :: "'a list \<Rightarrow> 'a retrieved" where
  "collapse xs = (if length xs = 1 then Scalar (hd xs) else Items xs)"

text \<open>\<^verbatim>\<open>[s3.open(file) for file in s3_files_list]\<close>: the first failure ends it.\<close>

fun open_files :: "s3fs \<Rightarrow> string list \<Rightarrow> pyexc + s3file list" where
  "open_files s3 [] = Inr []"
| "open_files s3 (file # rest) =
     (case s3_open s3 file of
        Inl e \<Rightarrow> Inl e
      | Inr h \<Rightarrow> (case open_files s3 rest of Inl e \<Rightarrow> Inl e | Inr hs \<Rightarrow> Inr (h # hs)))"

text \<open>
  Line 350 calls \<^verbatim>\<open>ecco_podaac_s3_query(ShortName,StartDate,EndDate)\<close>: the fourth
  parameter of the query takes its default \<^verbatim>\<open>'monthly'\<close>, and the
  \<^verbatim>\<open>snapshot_interval\<close> of the caller is not read.
\<close>

definition ecco_podaac_s3_open ::
  "env \<Rightarrow> string \<Rightarrow> string \<Rightarrow> string \<Rightarrow> string \<Rightarrow> (pyexc + s3file retrieved) option" where
  "ecco_podaac_s3_open ev ShortName StartDate EndDate snapshot_interval =
     (case ecco_podaac_s3_query ev ShortName StartDate EndDate ''monthly'' of
        None \<Rightarrow> None
      | Some (Inl e) \<Rightarrow> Some (Inl e)
      | Some (Inr s3_files_list) \<Rightarrow>
          (case init_S3FileSystem ev of
             Inl e \<Rightarrow> Some (Inl e)
           | Inr s3 \<Rightarrow>
               (case open_files s3 s3_files_list of
                  Inl e \<Rightarrow> Some (Inl e)
                | Inr opened \<Rightarrow> Some (Inr (collapse opened)))))"

text \<open>
  \<^verbatim>\<open>ecco_podaac_s3_get\<close> (lines 493 to 524); line 509 is the same three-argument call
  of the query. The result is \<open>None\<close> for Python's \<^verbatim>\<open>None\<close>, returned when
  \<^verbatim>\<open>return_downloaded_files\<close> is false. \<^verbatim>\<open>len(None)\<close> raises a \<^verbatim>\<open>TypeError\<close>.
\<close>

definition ecco_podaac_s3_get ::
  "env \<Rightarrow> string \<Rightarrow> string \<Rightarrow> string \<Rightarrow> string \<Rightarrow> string option \<Rightarrow> nat \<Rightarrow> bool \<Rightarrow> bool
     \<Rightarrow> world \<Rightarrow> ((pyexc + string retrieved option) \<times> world) option" where
  "ecco_podaac_s3_get ev ShortName StartDate EndDate snapshot_interval download_root_dir
       n_workers force_redownload return_downloaded_files w =
     (let root_dir = (case download_root_dir of None \<Rightarrow> default_root ev | Some d \<Rightarrow> d);
          download_dir = path_div ev root_dir ShortName
      in case mkdir ev download_dir (fs w) of
           (Some e, f') \<Rightarrow> Some (Inl e, w\<lparr>fs := f'\<rparr>)
         | (None, f') \<Rightarrow>
             (case ecco_podaac_s3_query ev ShortName StartDate EndDate ''monthly'' of
                None \<Rightarrow> None
              | Some (Inl e) \<Rightarrow> Some (Inl e, w\<lparr>fs := f'\<rparr>)
              | Some (Inr s3_files_list) \<Rightarrow>
                  (case init_S3FileSystem ev of
                     Inl e \<Rightarrow> Some (Inl e, w\<lparr>fs := f'\<rparr>)
                   | Inr s3 \<Rightarrow>
                       (case download_files_s3_wrapper s3 s3_files_list download_dir
                               n_workers force_redownload (w\<lparr>fs := f'\<rparr>) of
                          (Inl e, w') \<Rightarrow> Some (Inl e, w')
                        | (Inr downloaded_files, w') \<Rightarrow>
                            (if return_downloaded_files
                             then (case downloaded_files of
                                     None \<Rightarrow> Some (Inl TypeError, w')
                                   | Some dl \<Rightarrow> Some (Inr (Some (collapse dl)), w'))
                             else Some (Inr None, w'))))))"

section \<open>\<^verbatim>\<open>ecco_podaac_s3_get_diskaware\<close>\<close>

text \<open>
  Lines 622 to 625: the bytes of the references that are not yet files of the download
  directory, one \<^verbatim>\<open>s3.info\<close> call for each.
\<close>

fun dataset_size :: "s3fs \<Rightarrow> fsys \<Rightarrow> string \<Rightarrow> string list \<Rightarrow> nat \<Rightarrow> pyexc + nat" where
  "dataset_size s3 f download_dir [] curr_dataset_size = Inr curr_dataset_size"
| "dataset_size s3 f download_dir (s3_file # rest) curr_dataset_size =
     (if isfile f (join download_dir [basename s3_file])
      then dataset_size s3 f download_dir rest curr_dataset_size
      else (case info_size s3 s3_file of
              Inl e \<Rightarrow> Inl e
            | Inr n \<Rightarrow> dataset_size s3 f download_dir rest (curr_dataset_size + n)))"

text \<open>Lines 612 to 628: one query, one \<^verbatim>\<open>mkdir\<close> and one size for each dataset.\<close>

fun sizes_loop ::
  "env \<Rightarrow> s3fs \<Rightarrow> string list \<Rightarrow> string \<Rightarrow> string \<Rightarrow> string \<Rightarrow> string
     \<Rightarrow> nat list \<Rightarrow> string list list \<Rightarrow> world
     \<Rightarrow> ((pyexc + nat list \<times> string list list) \<times> world) option" where
  "sizes_loop ev s3 [] StartDate EndDate snapshot_interval root_dir
       dataset_sizes s3_files_list_all w = Some (Inr (dataset_sizes, s3_files_list_all), w)"
| "sizes_loop ev s3 (curr_shortname # rest) StartDate EndDate snapshot_interval root_dir
       dataset_sizes s3_files_list_all w =
     (case ecco_podaac_s3_query ev curr_shortname StartDate EndDate snapshot_interval of
        None \<Rightarrow> None
      | Some (Inl e) \<Rightarrow> Some (Inl e, w)
      | Some (Inr s3_files_list) \<Rightarrow>
          (case mkdir ev (path_div ev root_dir curr_shortname) (fs w) of
             (Some e, f') \<Rightarrow> Some (Inl e, w\<lparr>fs := f'\<rparr>)
           | (None, f') \<Rightarrow>
               (case dataset_size s3 f' (path_div ev root_dir curr_shortname) s3_files_list 0 of
                  Inl e \<Rightarrow> Some (Inl e, w\<lparr>fs := f'\<rparr>)
                | Inr curr_dataset_size \<Rightarrow>
                    sizes_loop ev s3 rest StartDate EndDate snapshot_interval root_dir
                      (dataset_sizes @ [curr_dataset_size])
                      (s3_files_list_all @ [s3_files_list]) (w\<lparr>fs := f'\<rparr>))))"

text \<open>
  Line 640: \<^verbatim>\<open>join(*os.path.split(query_dir)[:-1])\<close> is the head of the split. On
  a string neither \<^verbatim>\<open>split\<close> nor \<^verbatim>\<open>join\<close> raises, so the result is always \<open>Inr\<close>.
\<close>

definition parent_dir :: "string \<Rightarrow> pyexc + string" where
  "parent_dir query_dir = Inr (join (fst (split_path query_dir)) [])"

text \<open>
  The loop of lines 634 to 643. \<open>usage\<close> is \<^verbatim>\<open>shutil.disk_usage(dir).free\<close>, \<open>None\<close>
  when it raises. \<open>Inl ()\<close> is the \<^verbatim>\<open>return -1\<close> of line 643; \<open>None\<close> is a loop that
  never ends.
\<close>

partial_function (option) query_disk ::
  "(string \<Rightarrow> nat option) \<Rightarrow> string \<Rightarrow> (unit + nat) option" where
  "query_disk usage query_dir =
     (case usage query_dir of
        Some avail_storage \<Rightarrow> Some (Inr avail_storage)
      | None \<Rightarrow>
          (case parent_dir query_dir of
             Inl e \<Rightarrow> Some (Inl ())
           | Inr d \<Rightarrow> query_disk usage d))"

text \<open>
  Line 592 is \<^verbatim>\<open>np.fmin(np.fmax(max_avail_frac,0),0.9)\<close>. Lines 646 to 653 divide the
  sum of the sizes by the free bytes and compare with the clamped fraction. Sizes and
  free bytes are integers; the quotient is taken exactly here, without the rounding of
  64-bit floats. A division by zero does not raise in numpy: it gives \<^verbatim>\<open>nan\<close> or
  \<^verbatim>\<open>inf\<close>, and neither is \<^verbatim>\<open><=\<close> a fraction, which is the first conjunct.
\<close>

definition clamp_frac :: "rat \<Rightarrow> rat" where
  "clamp_frac max_avail_frac = min (max max_avail_frac 0) (9 / 10)"

definition within_budget :: "nat \<Rightarrow> nat \<Rightarrow> rat \<Rightarrow> bool" where
  "within_budget sizes_sum avail_storage max_avail_frac =
     (avail_storage \<noteq> 0 \<and> of_nat sizes_sum / of_nat avail_storage \<le> max_avail_frac)"

text \<open>
  The returned dictionary keeps its keys in insertion order; assigning to a key that
  is present replaces its value in place.
\<close>

datatype dataset_files = Downloaded "string retrieved" | Opened "s3file retrieved"

fun dict_set :: "('k \<times> 'v) list \<Rightarrow> 'k \<Rightarrow> 'v \<Rightarrow> ('k \<times> 'v) list" where
  "dict_set [] k v = [(k, v)]"
| "dict_set ((k', v') # kvs) k v =
     (if k' = k then (k, v) # kvs else (k', v') # dict_set kvs k v)"

text \<open>Lines 656 to 671: the download branch, over the zipped names and lists.\<close>

fun download_datasets ::
  "env \<Rightarrow> s3fs \<Rightarrow> (string \<times> string list) list \<Rightarrow> string \<Rightarrow> nat \<Rightarrow> bool
     \<Rightarrow> (string \<times> dataset_files) list \<Rightarrow> world
     \<Rightarrow> (pyexc + (string \<times> dataset_files) list) \<times> world" where
  "download_datasets ev s3 [] root_dir n_workers force_redownload retrieved_files w =
     (Inr retrieved_files, w)"
| "download_datasets ev s3 ((curr_shortname, s3_files_list) # rest) root_dir n_workers
       force_redownload retrieved_files w =
     (case download_files_s3_wrapper s3 s3_files_list (path_div ev root_dir curr_shortname)
             n_workers force_redownload w of
        (Inl e, w') \<Rightarrow> (Inl e, w')
      | (Inr None, w') \<Rightarrow> (Inl TypeError, w')
      | (Inr (Some downloaded_files), w') \<Rightarrow>
          download_datasets ev s3 rest root_dir n_workers force_redownload
            (dict_set retrieved_files curr_shortname (Downloaded (collapse downloaded_files)))
            w')"

text \<open>Lines 678 to 685: the branch that opens every list on the store.\<close>

fun open_datasets ::
  "s3fs \<Rightarrow> (string \<times> string list) list \<Rightarrow> (string \<times> dataset_files) list
     \<Rightarrow> pyexc + (string \<times> dataset_files) list" where
  "open_datasets s3 [] retrieved_files = Inr retrieved_files"
| "open_datasets s3 ((curr_shortname, s3_files_list) # rest) retrieved_files =
     (case open_files s3 s3_files_list of
        Inl e \<Rightarrow> Inl e
      | Inr opened \<Rightarrow>
          open_datasets s3 rest
            (dict_set retrieved_files curr_shortname (Opened (collapse opened))))"

datatype diskaware_result = MinusOne | Retrieved "(string \<times> dataset_files) list"

definition ecco_podaac_s3_get_diskaware ::
  "env \<Rightarrow> string list \<Rightarrow> string \<Rightarrow> string \<Rightarrow> string option \<Rightarrow> string option \<Rightarrow> rat
     \<Rightarrow> nat \<Rightarrow> bool \<Rightarrow> world \<Rightarrow> ((pyexc + diskaware_result) \<times> world) option" where
  "ecco_podaac_s3_get_diskaware ev ShortNames StartDate EndDate snapshot_interval
       download_root_dir max_avail_frac n_workers force_redownload w =
     (case init_S3FileSystem ev of
        Inl e \<Rightarrow> Some (Inl e, w)
      | Inr s3 \<Rightarrow>
          (let interval =
                 (case snapshot_interval of
                    None \<Rightarrow> if list_ex (str_in ''DAILY'') ShortNames
                            then ''daily'' else ''monthly''
                  | Some i \<Rightarrow> i);
               root_dir = (case download_root_dir of None \<Rightarrow> default_root ev | Some d \<Rightarrow> d)
           in case sizes_loop ev s3 ShortNames StartDate EndDate interval root_dir [] [] w of
                None \<Rightarrow> None
              | Some (Inl e, w1) \<Rightarrow> Some (Inl e, w1)
              | Some (Inr (dataset_sizes, s3_files_list_all), w1) \<Rightarrow>
                  (case query_disk (disk_usage_free ev (fs w1)) root_dir of
                     None \<Rightarrow> None
                   | Some (Inl u) \<Rightarrow> Some (Inr MinusOne, w1)
                   | Some (Inr avail_storage) \<Rightarrow>
                       (if within_budget (sum_list dataset_sizes) avail_storage
                             (clamp_frac max_avail_frac)
                        then (case download_datasets ev s3 (zip ShortNames s3_files_list_all)
                                     root_dir n_workers force_redownload [] w1 of
                                (Inl e, w2) \<Rightarrow> Some (Inl e, w2)
                              | (Inr d, w2) \<Rightarrow> Some (Inr (Retrieved d), w2))
                        else (case open_datasets s3 (zip ShortNames s3_files_list_all) [] of
                                Inl e \<Rightarrow> Some (Inl e, w1)
                              | Inr d \<Rightarrow> Some (Inr (Retrieved d), w1))))))"

section \<open>Notions used to state the properties\<close>

text \<open>
  The day of the month that line 166 reads in a reference: the last two characters of
  the leftmost date that follows an underscore.
\<close>

definition embedded_day :: "string \<Rightarrow> string option" where
  "embedded_day s3_file = map_option (\<lambda>m. drop 8 (drop 1 m)) (findall_first s3_file)"

text \<open>
  The words of the pagination rule. \<open>end_day\<close> is the day on which an entry ends and
  \<open>lower_bound\<close> the day that the first ten characters of a temporal filter name.
  \<open>one_day_past\<close> is a temporal filter with its lower bound replaced by the day after
  the end of the last entry of a page. \<open>s3_reference\<close> is the address of the first
  link of an entry whose title names the direct S3 access, if it has one.
\<close>

definition end_day :: "env \<Rightarrow> entry \<Rightarrow> int" where
  "end_day ev e = datetime64_D ev (time_end e)"

definition lower_bound :: "env \<Rightarrow> string \<Rightarrow> int" where
  "lower_bound ev temporal = datetime64_D ev (take 10 temporal)"

definition one_day_past :: "env \<Rightarrow> string \<Rightarrow> entry list \<Rightarrow> string" where
  "one_day_past ev temporal page =
     str_D ev (end_day ev (last page) + 1) @ drop 10 temporal"

definition s3_reference :: "entry \<Rightarrow> string option" where
  "s3_reference e =
     map_option href
       (find (\<lambda>l. str_in ''direct download access via S3'' (title l)) (links e))"

text \<open>
  The catalog serves a sequence of pages to a query: asked with the parameters of the
  query it answers with the first page; every page but the last has exactly 2000
  entries and is followed by the answer to the same parameters with the lower bound
  one day past the page; the last page has fewer than 2000 entries. \<open>requests\<close> lists
  the temporal filters that this asks for, one for each page.
\<close>

definition answers :: "env \<Rightarrow> params \<Rightarrow> entry list \<Rightarrow> bool" where
  "answers ev ps page =
     (case get_results ev ps of Inl e \<Rightarrow> False | Inr r \<Rightarrow> feed r = Some page)"

fun served :: "env \<Rightarrow> params \<Rightarrow> entry list list \<Rightarrow> bool" where
  "served ev ps [] = False"
| "served ev ps [page] = (answers ev ps page \<and> length page < 2000)"
| "served ev ps (page # later # rest) =
     (answers ev ps page \<and> length page = 2000
      \<and> served ev (ps\<lparr>p_temporal := one_day_past ev (p_temporal ps) page\<rparr>) (later # rest))"

fun requests :: "env \<Rightarrow> string \<Rightarrow> entry list list \<Rightarrow> string list" where
  "requests ev temporal [] = []"
| "requests ev temporal (page # rest) =
     temporal # requests ev (one_day_past ev temporal page) rest"

text \<open>
  What the pagination rule relies on. The catalog honours the lower bound it is asked
  with: no entry of a page ends before the lower bound of the request that the page
  answers. The day that a request names after a full page reads back as the day that
  was printed (numpy prints a day of the years 0 to 9999 in ten characters). Every
  page lists its entries in the order of their end days, each entry once.
\<close>

fun lower_bound_honoured :: "env \<Rightarrow> string \<Rightarrow> entry list list \<Rightarrow> bool" where
  "lower_bound_honoured ev temporal [] = True"
| "lower_bound_honoured ev temporal (page # rest) =
     (list_all (\<lambda>e. lower_bound ev temporal \<le> end_day ev e) page
      \<and> lower_bound_honoured ev (one_day_past ev temporal page) rest)"

fun days_read_back :: "env \<Rightarrow> string \<Rightarrow> entry list list \<Rightarrow> bool" where
  "days_read_back ev temporal [] = True"
| "days_read_back ev temporal [page] = True"
| "days_read_back ev temporal (page # later # rest) =
     (lower_bound ev (one_day_past ev temporal page) = end_day ev (last page) + 1
      \<and> days_read_back ev (one_day_past ev temporal page) (later # rest))"

definition in_order :: "env \<Rightarrow> entry list \<Rightarrow> bool" where
  "in_order ev page = (sorted (map (end_day ev) page) \<and> distinct page)"

text \<open>
  The words of the choice between download and remote opening. \<open>required_bytes\<close> is,
  for each dataset in turn, the number of bytes that the store reports for those of
  its candidates that are not files of the dataset's directory, once the directory has
  been created. \<open>download_each\<close> downloads every candidate of every dataset, one after
  the other, into the dataset's directory, and gives the local paths of each dataset;
  it stops at the first exception. \<open>open_each\<close> opens every candidate of every dataset
  on the store and gives the handles of each dataset, or the first exception.
  \<open>dict_of\<close> is the dictionary that assigning the pairs in order builds.
\<close>

fun required_bytes ::
  "env \<Rightarrow> s3fs \<Rightarrow> string \<Rightarrow> (string \<times> string list) list \<Rightarrow> fsys \<Rightarrow> nat list" where
  "required_bytes ev s3 root_dir [] f = []"
| "required_bytes ev s3 root_dir ((name, candidates) # rest) f =
     sum_list
       (map (\<lambda>u. case info_size s3 u of Inl e \<Rightarrow> 0 | Inr n \<Rightarrow> n)
          (filter
             (\<lambda>u. \<not> isfile (snd (mkdir ev (path_div ev root_dir name) f))
                      (join (path_div ev root_dir name) [basename u]))
             candidates))
     # required_bytes ev s3 root_dir rest (snd (mkdir ev (path_div ev root_dir name) f))"

fun download_each ::
  "env \<Rightarrow> s3fs \<Rightarrow> string \<Rightarrow> bool \<Rightarrow> (string \<times> string list) list \<Rightarrow> world
     \<Rightarrow> (pyexc + (string \<times> string list) list) \<times> world" where
  "download_each ev s3 root_dir force [] w = (Inr [], w)"
| "download_each ev s3 root_dir force ((name, candidates) # rest) w =
     (case sequential_downloads s3 candidates (path_div ev root_dir name) force w of
        (Inl e, w') \<Rightarrow> (Inl e, w')
      | (Inr paths, w') \<Rightarrow>
          (case download_each ev s3 root_dir force rest w' of
             (Inl e, w'') \<Rightarrow> (Inl e, w'')
           | (Inr got, w'') \<Rightarrow> (Inr ((name, paths) # got), w'')))"

fun all_or_first_error :: "('e + 'a) list \<Rightarrow> 'e + 'a list" where
  "all_or_first_error [] = Inr []"
| "all_or_first_error (Inl e # rest) = Inl e"
| "all_or_first_error (Inr v # rest) =
     (case all_or_first_error rest of Inl e \<Rightarrow> Inl e | Inr vs \<Rightarrow> Inr (v # vs))"

fun open_each ::
  "s3fs \<Rightarrow> (string \<times> string list) list \<Rightarrow> pyexc + (string \<times> s3file list) list" where
  "open_each s3 [] = Inr []"
| "open_each s3 ((name, candidates) # rest) =
     (case all_or_first_error (map (s3_open s3) candidates) of
        Inl e \<Rightarrow> Inl e
      | Inr handles \<Rightarrow>
          (case open_each s3 rest of
             Inl e \<Rightarrow> Inl e
           | Inr got \<Rightarrow> Inr ((name, handles) # got)))"

definition dict_of :: "('k \<times> 'v) list \<Rightarrow> ('k \<times> 'v) list" where
  "dict_of kvs = foldl (\<lambda>d (k, v). dict_set d k v) [] kvs"

text \<open>The directory that line 640 moves to: the head of \<^verbatim>\<open>os.path.split\<close>.\<close>

definition parent :: "string \<Rightarrow> string" where
  "parent q = fst (split_path q)"

section \<open>A catalog, a store and a machine for the examples\<close>

text \<open>
  The examples run the functions on a small catalog: granules with one HTTPS link and
  one direct S3 link, a store that holds every reference with one size and writes the
  target file on \<^verbatim>\<open>get_file\<close>, a machine where \<^verbatim>\<open>mkdir\<close> creates a directory and
  its parent and every existing directory reports the same free space. The three numpy functions are tables over the dates
  that the examples use, with the values numpy gives.
\<close>

definition https_link :: "string \<Rightarrow> link" where
  "https_link h = \<lparr>title = ''Download '' @ h, href = ''https://archive.podaac.earthdata.nasa.gov/'' @ h\<rparr>"

definition s3_link :: "string \<Rightarrow> link" where
  "s3_link h =
     \<lparr>title = ''This link provides direct download access via S3 to the granule.'',
      href = ''s3://podaac/'' @ h\<rparr>"

definition granule :: "string \<Rightarrow> string \<Rightarrow> string \<Rightarrow> entry" where
  "granule ts te h = \<lparr>time_start = ts, time_end = te, links = [https_link h, s3_link h]\<rparr>"

definition example_store :: "nat \<Rightarrow> s3fs" where
  "example_store size_of_each =
     \<lparr>get_file = (\<lambda>u t f. (None, f\<lparr>files := insert t (files f)\<rparr>)),
      info_size = (\<lambda>u. Inr size_of_each),
      s3_open = (\<lambda>u. Inr (S3File u))\<rparr>"

definition example_day :: "string \<Rightarrow> int" where
  "example_day s =
     (if take 10 s = ''1992-01-01'' then 8035
      else if take 10 s = ''1992-01-02'' then 8036
      else if take 10 s = ''1992-01-03'' then 8037
      else if take 10 s = ''1992-02-01'' then 8066
      else 0)"

definition example_str_D :: "int \<Rightarrow> string" where
  "example_str_D d =
     (if d = 8035 then ''1992-01-01''
      else if d = 8036 then ''1992-01-02''
      else if d = 8037 then ''1992-01-03''
      else if d = 8066 then ''1992-02-01''
      else ''1970-01-01'')"

definition example_env :: "entry list \<Rightarrow> bool \<Rightarrow> nat \<Rightarrow> nat \<Rightarrow> env" where
  "example_env page single_day size_of_each free =
     \<lparr>date_adjustment = (\<lambda>n sd ed. Inr (sd, ed, single_day)),
      setup_earthdata_login_auth = None,
      get_results = (\<lambda>p. Inr \<lparr>feed = Some page, errors = None\<rparr>),
      datetime64_D = example_day,
      datetime64_ns = (\<lambda>s. ns_of_day (example_day s)),
      str_D = example_str_D,
      init_S3FileSystem = Inr (example_store size_of_each),
      default_root = ''/home/user/Downloads/ECCO_V4r4_PODAAC'',
      path_div = (\<lambda>r n. join r [n]),
      mkdir = (\<lambda>d f. (None, f\<lparr>dirs := insert d (insert (fst (split_path d)) (dirs f))\<rparr>)),
      disk_usage_free = (\<lambda>f d. if d \<in> dirs f then Some free else None)\<rparr>"

definition example_machine :: world where
  "example_machine = \<lparr>fs = \<lparr>dirs = {''/'', ''/home''}, files = {}\<rparr>, net_log = []\<rparr>"

definition single_page :: "entry list" where
  "single_page =
     [granule ''1992-01-01T00:00:00.000Z'' ''1992-01-01T00:00:00.000Z''
        ''SSH_snap_1992-01-01T000000_ECCO_V4r4.nc'']"

definition https_only_granule :: "string \<Rightarrow> string \<Rightarrow> string \<Rightarrow> entry" where
  "https_only_granule ts te h = \<lparr>time_start = ts, time_end = te, links = [https_link h]\<rparr>"

definition daily_page :: "entry list" where
  "daily_page =
     [https_only_granule ''1992-01-01T00:00:00.000Z'' ''1992-01-02T00:00:00.000Z''
        ''SSH_day_mean_1992-01-01_ECCO_V4r4.nc'',
      granule ''1992-01-02T00:00:00.000Z'' ''1992-01-03T00:00:00.000Z''
        ''SSH_day_mean_1992-01-02_ECCO_V4r4.nc'',
      granule ''1992-01-03T00:00:00.000Z'' ''1992-01-04T00:00:00.000Z''
        ''SSH_day_mean_1992-01-03_ECCO_V4r4.nc'']"

definition snapshot_page :: "entry list" where
  "snapshot_page =
     [granule ''1992-01-01T00:00:00.000Z'' ''1992-01-01T00:00:00.000Z''
        ''SSH_snap_1992-01-01T000000_ECCO_V4r4.nc'',
      granule ''1992-01-02T00:00:00.000Z'' ''1992-01-02T00:00:00.000Z''
        ''SSH_snap_1992-01-02T000000_ECCO_V4r4.nc'',
      granule ''1992-02-01T00:00:00.000Z'' ''1992-02-01T00:00:00.000Z''
        ''SSH_snap_1992-02-01T000000_ECCO_V4r4.nc'']"

text \<open>
  The machine after the directories of two monthly datasets were created under
  \<^verbatim>\<open>/data\<close>.
\<close>

definition example_machine_two :: world where
  "example_machine_two =
     \<lparr>fs = \<lparr>dirs = {''/data/ECCO_L4_SSH_05DEG_MONTHLY_V4R4'',
                     ''/data/ECCO_L4_OBP_05DEG_MONTHLY_V4R4'', ''/data'', ''/'', ''/home''},
             files = {}\<rparr>,
      net_log = []\<rparr>"

text \<open>
  A catalog of 4500 granules for the pagination example. Granule \<open>i\<close> starts and ends
  on day \<open>i\<close>; this toy catalog writes a time stamp in unary, and the three temporal
  bounds that the example meets in decimal. It serves the granules in order, 2000 to a
  page, from the day that the lower bound names.
\<close>

definition paged_day :: "string \<Rightarrow> int" where
  "paged_day s =
     (if s = ''day-000000'' then 0
      else if s = ''day-002000'' then 2000
      else if s = ''day-004000'' then 4000
      else int (length s))"

definition numbered_granule :: "nat \<Rightarrow> entry" where
  "numbered_granule i =
     \<lparr>time_start = replicate i (CHR ''|''), time_end = replicate i (CHR ''|''),
      links = [s3_link (replicate i (CHR ''g''))]\<rparr>"

definition numbered_page :: "nat \<Rightarrow> nat \<Rightarrow> entry list" where
  "numbered_page a b = map numbered_granule [a..<b]"

definition paged_env :: env where
  "paged_env =
     \<lparr>date_adjustment = (\<lambda>n sd ed. Inr (sd, ed, False)),
      setup_earthdata_login_auth = None,
      get_results = (\<lambda>p.
         if take 10 (p_temporal p) = ''day-000000''
         then Inr \<lparr>feed = Some (numbered_page 0 2000), errors = None\<rparr>
         else if take 10 (p_temporal p) = ''day-002000''
         then Inr \<lparr>feed = Some (numbered_page 2000 4000), errors = None\<rparr>
         else Inr \<lparr>feed = Some (numbered_page 4000 4500), errors = None\<rparr>),
      datetime64_D = paged_day,
      datetime64_ns = (\<lambda>s. ns_of_day (paged_day s)),
      str_D = (\<lambda>d. if d = 2000 then ''day-002000''
                    else if d = 4000 then ''day-004000'' else ''day-000000''),
      init_S3FileSystem = Inr (example_store 1024),
      default_root = ''/home/user/Downloads/ECCO_V4r4_PODAAC'',
      path_div = (\<lambda>r n. join r [n]),
      mkdir = (\<lambda>d f. (None, f\<lparr>dirs := insert d (insert (fst (split_path d)) (dirs f))\<rparr>)),
      disk_usage_free = (\<lambda>f d. if d \<in> dirs f then Some 100 else None)\<rparr>"

section \<open>Properties of the download functions\<close>

lemma lookup_names_dfc:
  "lookup_names [''time'', ''ThreadPoolExecutor'', ''list'', ''tqdm'',
                 ''download_file'', ''repeat'', ''len'', ''sys'']
   = Some (NameError ''ThreadPoolExecutor'')"
  by (simp add: lookup_name_def module_globals_def builtin_names_def)

lemma concurrently_raises:
  "download_files_concurrently s3 dls d n f w = (Inl (NameError ''ThreadPoolExecutor''), w)"
  unfolding download_files_concurrently_def lookup_names_dfc by simp

lemma download_file_path:
  "download_file s3 url d f w = (Inr p, w') \<Longrightarrow> p = join d [basename url]"
  by (auto simp: download_file_def Let_def split: if_splits prod.splits option.splits)

lemma download_loop_sequential:
  "download_loop s3 us d f acc w =
     (case sequential_downloads s3 us d f w of
        (Inl e, w') \<Rightarrow> (Inl e, w')
      | (Inr ps, w') \<Rightarrow> (Inr (acc @ ps), w'))"
proof (induction us arbitrary: acc w)
  case Nil
  show ?case by simp
next
  case (Cons u us)
  show ?case
    by (simp add: Cons.IH split: prod.splits sum.splits)
qed

lemma wrapper_fallback:
  "download_files_s3_wrapper s3 urls d n f w =
     (case sequential_downloads s3 urls d f w of
        (Inl e, w') \<Rightarrow> (Inl e, w')
      | (Inr ps, w') \<Rightarrow> (Inr (Some ps), w'))"
  by (simp add: concurrently_raises download_files_s3_wrapper_def download_loop_sequential
           split: prod.splits sum.splits)

lemma download_loop_paths:
  "download_loop s3 us d f acc w = (Inr ps, w') \<Longrightarrow>
     ps = acc @ map (\<lambda>u. join d [basename u]) us"
proof (induction us arbitrary: acc w)
  case Nil
  then show ?case by simp
next
  case (Cons u us)
  from Cons.prems obtain r w1 where
    r: "download_file s3 u d f w = (Inr r, w1)"
    and rest: "download_loop s3 us d f (acc @ [r]) w1 = (Inr ps, w')"
    by (auto split: prod.splits sum.splits)
  from Cons.IH [OF rest] download_file_path [OF r] show ?case by simp
qed

text \<open>
  C9. \<^verbatim>\<open>download_file\<close> with \<^verbatim>\<open>force=False\<close>: when the target file (the output
  directory joined with the basename of the URL) exists, the call returns that path
  and leaves the world as it is, so nothing is requested from the object store. When
  the output directory does not exist the call raises, again without a transfer. A
  second call with the same arguments, after a first call that returned, returns the
  same path and requests no transfer, provided the transfer of the first call, if it
  made one, left the target a file in a directory that still exists.
\<close>

theorem download_file_idempotent:
  "(isdir (fs w) d \<and> isfile (fs w) (join d [basename url]) \<longrightarrow>
      download_file s3 url d False w = (Inr (join d [basename url]), w))
   \<and> (\<not> isdir (fs w) d \<longrightarrow>
      download_file s3 url d force w =
        (Inl (PyException (''Output directory doesn't exist! ('' @ d @ '')'')), w))
   \<and> (download_file s3 url d False w = (Inr p, w1)
      \<and> (\<forall>f'. get_file s3 url (join d [basename url]) (fs w) = (None, f') \<longrightarrow>
             isdir f' d \<and> isfile f' (join d [basename url]))
      \<longrightarrow> download_file s3 url d False w1 = (Inr p, w1))"
proof (intro conjI impI)
  assume "isdir (fs w) d \<and> isfile (fs w) (join d [basename url])"
  then show "download_file s3 url d False w = (Inr (join d [basename url]), w)"
    by (simp add: download_file_def)
next
  assume "\<not> isdir (fs w) d"
  then show "download_file s3 url d force w =
        (Inl (PyException (''Output directory doesn't exist! ('' @ d @ '')'')), w)"
    by (simp add: download_file_def)
next
  let ?t = "join d [basename url]"
  assume a: "download_file s3 url d False w = (Inr p, w1)
      \<and> (\<forall>f'. get_file s3 url ?t (fs w) = (None, f') \<longrightarrow> isdir f' d \<and> isfile f' ?t)"
  then have first: "download_file s3 url d False w = (Inr p, w1)"
    and contract: "\<And>f'. get_file s3 url ?t (fs w) = (None, f') \<Longrightarrow> isdir f' d \<and> isfile f' ?t"
    by blast+
  from first have dir: "isdir (fs w) d"
    by (auto simp: download_file_def split: if_splits)
  have p: "p = ?t"
    using first
    by (auto simp: download_file_def Let_def split: if_splits prod.splits option.splits)
  have "isdir (fs w1) d \<and> isfile (fs w1) ?t"
  proof (cases "isfile (fs w) ?t")
    case True
    with dir first show ?thesis by (simp add: download_file_def)
  next
    case False
    with dir first obtain f' where
      g: "get_file s3 url ?t (fs w) = (None, f')" and w1: "fs w1 = f'"
      by (auto simp: download_file_def Let_def split: prod.splits option.splits)
    from contract [OF g] w1 show ?thesis by simp
  qed
  with p show "download_file s3 url d False w1 = (Inr p, w1)"
    by (simp add: download_file_def)
qed

theorem download_file_idempotent_witness:
  "download_file
      \<lparr>get_file = (\<lambda>u t f. (None, f\<lparr>files := insert t (files f)\<rparr>)),
       info_size = (\<lambda>u. Inr 1), s3_open = (\<lambda>u. Inr (S3File u))\<rparr>
      ''s3://b/k/a.nc'' ''out'' False
      \<lparr>fs = \<lparr>dirs = {''out''}, files = {}\<rparr>, net_log = []\<rparr>
    = (Inr ''out/a.nc'',
       \<lparr>fs = \<lparr>dirs = {''out''}, files = {''out/a.nc''}\<rparr>,
        net_log = [(''s3://b/k/a.nc'', ''out/a.nc'')]\<rparr>)
   \<and> download_file
      \<lparr>get_file = (\<lambda>u t f. (None, f\<lparr>files := insert t (files f)\<rparr>)),
       info_size = (\<lambda>u. Inr 1), s3_open = (\<lambda>u. Inr (S3File u))\<rparr>
      ''s3://b/k/a.nc'' ''out'' False
      \<lparr>fs = \<lparr>dirs = {''out''}, files = {''out/a.nc''}\<rparr>,
       net_log = [(''s3://b/k/a.nc'', ''out/a.nc'')]\<rparr>
    = (Inr ''out/a.nc'',
       \<lparr>fs = \<lparr>dirs = {''out''}, files = {''out/a.nc''}\<rparr>,
        net_log = [(''s3://b/k/a.nc'', ''out/a.nc'')]\<rparr>)
   \<and> download_file
      \<lparr>get_file = (\<lambda>u t f. (None, f\<lparr>files := insert t (files f)\<rparr>)),
       info_size = (\<lambda>u. Inr 1), s3_open = (\<lambda>u. Inr (S3File u))\<rparr>
      ''s3://b/k/a.nc'' ''nowhere'' False
      \<lparr>fs = \<lparr>dirs = {''out''}, files = {}\<rparr>, net_log = []\<rparr>
    = (Inl (PyException ''Output directory doesn't exist! (nowhere)''),
       \<lparr>fs = \<lparr>dirs = {''out''}, files = {}\<rparr>, net_log = []\<rparr>)"
proof -
  let ?s3 = "\<lparr>get_file = (\<lambda>u t f. (None, f\<lparr>files := insert t (files f)\<rparr>)),
       info_size = (\<lambda>u. Inr 1), s3_open = (\<lambda>u. Inr (S3File u))\<rparr>"
  let ?w = "\<lparr>fs = \<lparr>dirs = {''out''}, files = {}\<rparr>, net_log = []\<rparr>"
  let ?w1 = "\<lparr>fs = \<lparr>dirs = {''out''}, files = {''out/a.nc''}\<rparr>,
        net_log = [(''s3://b/k/a.nc'', ''out/a.nc'')]\<rparr>"
  have t: "join ''out'' [basename ''s3://b/k/a.nc''] = ''out/a.nc''"
    by (simp add: join_def join_step_def basename_def)
  have first: "download_file ?s3 ''s3://b/k/a.nc'' ''out'' False ?w = (Inr ''out/a.nc'', ?w1)"
    by (simp add: download_file_def isdir_def isfile_def t Let_def)
  have contract: "\<forall>f'. get_file ?s3 ''s3://b/k/a.nc'' (join ''out'' [basename ''s3://b/k/a.nc'']) (fs ?w)
        = (None, f') \<longrightarrow> isdir f' ''out'' \<and> isfile f' (join ''out'' [basename ''s3://b/k/a.nc''])"
    by (auto simp: isdir_def isfile_def)
  have nodir: "\<not> isdir (fs ?w) ''nowhere''"
    by (simp add: isdir_def)
  from download_file_idempotent [of ?w "''out''" "''s3://b/k/a.nc''" ?s3 False "''out/a.nc''" ?w1]
    first contract
  have second: "download_file ?s3 ''s3://b/k/a.nc'' ''out'' False ?w1 = (Inr ''out/a.nc'', ?w1)"
    by blast
  from download_file_idempotent [of ?w "''nowhere''" "''s3://b/k/a.nc''" ?s3 False] nodir
  have third: "download_file ?s3 ''s3://b/k/a.nc'' ''nowhere'' False ?w =
      (Inl (PyException (''Output directory doesn't exist! ('' @ ''nowhere'' @ '')'')), ?w)"
    by blast
  from first second third show ?thesis by simp
qed

text \<open>
  C10. On every input \<^verbatim>\<open>download_files_concurrently\<close> raises the \<^verbatim>\<open>NameError\<close> of
  \<^verbatim>\<open>ThreadPoolExecutor\<close> before it touches the world, and
  \<^verbatim>\<open>download_files_s3_wrapper\<close> returns what the plain sequential loop of
  \<^verbatim>\<open>download_file\<close> over the list returns, with the same final world.
\<close>

theorem wrapper_is_sequential:
  "download_files_concurrently s3 urls d n f w = (Inl (NameError ''ThreadPoolExecutor''), w)
   \<and> download_files_s3_wrapper s3 urls d n f w =
       (case sequential_downloads s3 urls d f w of
          (Inl e, w') \<Rightarrow> (Inl e, w')
        | (Inr ps, w') \<Rightarrow> (Inr (Some ps), w'))"
  by (simp add: concurrently_raises download_files_s3_wrapper_def download_loop_sequential
           split: prod.splits sum.splits)







section \<open>Properties of the catalog query\<close>

subsection \<open>The monthly filter of snapshot datasets\<close>

lemma filter_remove1_dropped:
  "\<not> P x \<Longrightarrow> filter P (remove1 x c) = filter P c"
  by (induction c) auto

lemma monthly_filter_invariant:
  "monthly_filter xs c = Inr r \<Longrightarrow>
     filter (\<lambda>s. embedded_day s = Some ''01'') r = filter (\<lambda>s. embedded_day s = Some ''01'') c
     \<and> mset r = mset c - mset (filter (\<lambda>s. embedded_day s \<noteq> Some ''01'') xs)"
proof (induction xs arbitrary: c)
  case Nil
  then show ?case by simp
next
  case (Cons x xs)
  from Cons.prems obtain m where m: "findall_first x = Some m"
    by (auto split: option.splits)
  show ?case
  proof (cases "drop 8 (drop 1 m) = ''01''")
    case True
    with m have keep: "embedded_day x = Some ''01''" by (simp add: embedded_day_def)
    from Cons.prems m True have "monthly_filter xs c = Inr r" by simp
    from Cons.IH [OF this] keep show ?thesis by simp
  next
    case False
    with m have drop: "embedded_day x \<noteq> Some ''01''" by (simp add: embedded_day_def)
    from Cons.prems m False have "monthly_filter xs (remove1 x c) = Inr r" by simp
    from Cons.IH [OF this] drop show ?thesis
      by (simp add: filter_remove1_dropped)
  qed
qed

lemma monthly_filter_is_filter:
  assumes "monthly_filter c c = Inr r"
  shows "r = filter (\<lambda>s. embedded_day s = Some ''01'') c"
proof -
  let ?keep = "\<lambda>s. embedded_day s = Some ''01''"
  from monthly_filter_invariant [OF assms]
  have f: "filter ?keep r = filter ?keep c"
    and m: "mset r = mset c - mset (filter (\<lambda>s. \<not> ?keep s) c)"
    by simp_all
  have "mset c = mset (filter ?keep c) + mset (filter (\<lambda>s. \<not> ?keep s) c)"
    by simp
  with m have "mset r = mset (filter ?keep c)"
    by (metis add_diff_cancel_right')
  then have "set r = set (filter ?keep c)"
    by (rule mset_eq_setD)
  then have "\<forall>s\<in>set r. ?keep s" by auto
  then have "filter ?keep r = r" by (simp add: filter_id_conv)
  with f show ?thesis by simp
qed

lemma snapshot_loop:
  "granules_loop (example_env snapshot_page False 1024 100)
      \<lparr>p_ShortName = ''ECCO_L4_SSH_LLC0090GRID_SNAPSHOT_V4R4'',
       p_temporal = ''1992-01-01T00:00:00Z,1992-02-02T00:00:00Z''\<rparr> [] [] []
   = Some (Inr ([ns_of_day 8035, ns_of_day 8036, ns_of_day 8066],
        [''s3://podaac/SSH_snap_1992-01-01T000000_ECCO_V4r4.nc'',
         ''s3://podaac/SSH_snap_1992-01-02T000000_ECCO_V4r4.nc'',
         ''s3://podaac/SSH_snap_1992-02-01T000000_ECCO_V4r4.nc''],
        [''1992-01-01T00:00:00Z,1992-02-02T00:00:00Z'']))"
  apply (subst granules_loop.simps)
  apply (simp add: example_env_def snapshot_page_def granule_def s3_link_def https_link_def example_day_def)
  done

lemma snapshot_query_monthly:
  "ecco_podaac_s3_query (example_env snapshot_page False 1024 100)
      ''ECCO_L4_SSH_LLC0090GRID_SNAPSHOT_V4R4'' ''1992-01-01T00:00:00Z'' ''1992-02-02T00:00:00Z'' ''monthly''
   = Some (Inr [''s3://podaac/SSH_snap_1992-01-01T000000_ECCO_V4r4.nc'',
         ''s3://podaac/SSH_snap_1992-02-01T000000_ECCO_V4r4.nc''])"
proof -
  have da: "date_adjustment (example_env snapshot_page False 1024 100) = (\<lambda>n sd ed. Inr (sd, ed, False))"
    and lg: "setup_earthdata_login_auth (example_env snapshot_page False 1024 100) = None"
    by (simp_all add: example_env_def)
  show ?thesis
    unfolding ecco_podaac_s3_query_def get_granules_def da lg
    by (simp add: snapshot_loop match_date_def is_digit_def)
qed

lemma snapshot_query_daily:
  "ecco_podaac_s3_query (example_env snapshot_page False 1024 100)
      ''ECCO_L4_SSH_LLC0090GRID_SNAPSHOT_V4R4'' ''1992-01-01T00:00:00Z'' ''1992-02-02T00:00:00Z'' ''daily''
   = Some (Inr [''s3://podaac/SSH_snap_1992-01-01T000000_ECCO_V4r4.nc'',
         ''s3://podaac/SSH_snap_1992-01-02T000000_ECCO_V4r4.nc'',
         ''s3://podaac/SSH_snap_1992-02-01T000000_ECCO_V4r4.nc''])"
proof -
  have da: "date_adjustment (example_env snapshot_page False 1024 100) = (\<lambda>n sd ed. Inr (sd, ed, False))"
    and lg: "setup_earthdata_login_auth (example_env snapshot_page False 1024 100) = None"
    by (simp_all add: example_env_def)
  show ?thesis
    unfolding ecco_podaac_s3_query_def get_granules_def da lg
    by (simp add: snapshot_loop)
qed

lemma open_files_example:
  "open_files (example_store n) fl = Inr (map S3File fl)"
  by (induction fl) (simp_all add: example_store_def)

text \<open>
  C5. For a dataset whose name contains \<^verbatim>\<open>SNAPSHOT\<close>, queried with the interval
  \<^verbatim>\<open>'monthly'\<close>, every reference that \<^verbatim>\<open>ecco_podaac_s3_query\<close> returns carries a date
  whose day of the month is \<^verbatim>\<open>01\<close>, and the returned list is what \<^verbatim>\<open>get_granules\<close>
  collected, in its order, without the references of any other day.
\<close>

theorem monthly_snapshots_first_of_month:
  assumes "str_in ''SNAPSHOT'' ShortName"
    and "ecco_podaac_s3_query ev ShortName StartDate EndDate ''monthly'' = Some (Inr result)"
  shows "list_all (\<lambda>s. embedded_day s = Some ''01'') result
     \<and> (\<exists>sd ed flag granules.
           date_adjustment ev ShortName StartDate EndDate = Inr (sd, ed, flag)
           \<and> get_granules ev \<lparr>p_ShortName = ShortName, p_temporal = sd @ '','' @ ed\<rparr>
                 ShortName flag sd = Some (Inr granules)
           \<and> result = filter (\<lambda>s. embedded_day s = Some ''01'') granules)"
proof -
  from assms obtain sd ed flag granules where
    da: "date_adjustment ev ShortName StartDate EndDate = Inr (sd, ed, flag)"
    and gg: "get_granules ev \<lparr>p_ShortName = ShortName, p_temporal = sd @ '','' @ ed\<rparr>
                 ShortName flag sd = Some (Inr granules)"
    and mf: "monthly_filter granules granules = Inr result"
    by (auto simp: ecco_podaac_s3_query_def split: sum.splits option.splits prod.splits)
  from monthly_filter_is_filter [OF mf]
  have r: "result = filter (\<lambda>s. embedded_day s = Some ''01'') granules" .
  then have "list_all (\<lambda>s. embedded_day s = Some ''01'') result"
    by (simp add: list_all_iff)
  with da gg r show ?thesis by blast
qed

theorem monthly_snapshots_first_of_month_witness:
  "str_in ''SNAPSHOT'' ''ECCO_L4_SSH_LLC0090GRID_SNAPSHOT_V4R4''
   \<and> ecco_podaac_s3_query (example_env snapshot_page False 1024 100)
        ''ECCO_L4_SSH_LLC0090GRID_SNAPSHOT_V4R4''
        ''1992-01-01T00:00:00Z'' ''1992-02-02T00:00:00Z'' ''monthly''
      = Some (Inr [''s3://podaac/SSH_snap_1992-01-01T000000_ECCO_V4r4.nc'',
                   ''s3://podaac/SSH_snap_1992-02-01T000000_ECCO_V4r4.nc''])
   \<and> list_all (\<lambda>s. embedded_day s = Some ''01'')
        [''s3://podaac/SSH_snap_1992-01-01T000000_ECCO_V4r4.nc'',
         ''s3://podaac/SSH_snap_1992-02-01T000000_ECCO_V4r4.nc'']"
proof -
  have sn: "str_in ''SNAPSHOT'' ''ECCO_L4_SSH_LLC0090GRID_SNAPSHOT_V4R4''"
    by simp
  from monthly_snapshots_first_of_month [OF sn snapshot_query_monthly]
  have "list_all (\<lambda>s. embedded_day s = Some ''01'')
        [''s3://podaac/SSH_snap_1992-01-01T000000_ECCO_V4r4.nc'',
         ''s3://podaac/SSH_snap_1992-02-01T000000_ECCO_V4r4.nc'']"
    by blast
  with sn snapshot_query_monthly show ?thesis by blast
qed

text \<open>
  C4. \<^verbatim>\<open>ecco_podaac_s3_open\<close> and \<^verbatim>\<open>ecco_podaac_s3_get\<close> do not read their
  \<^verbatim>\<open>snapshot_interval\<close>: whatever the caller passes, they return what they return for
  \<^verbatim>\<open>'monthly'\<close>. On the example catalog the query with \<^verbatim>\<open>'daily'\<close> gives the three
  snapshots of the range, and \<^verbatim>\<open>ecco_podaac_s3_open\<close> called with \<^verbatim>\<open>'daily'\<close> opens
  only the two that are dated on the first of a month.
\<close>

theorem open_ignores_snapshot_interval:
  "ecco_podaac_s3_open ev ShortName StartDate EndDate snapshot_interval
     = ecco_podaac_s3_open ev ShortName StartDate EndDate ''monthly''
   \<and> ecco_podaac_s3_get ev ShortName StartDate EndDate snapshot_interval
        download_root_dir n_workers force_redownload return_downloaded_files w
     = ecco_podaac_s3_get ev ShortName StartDate EndDate ''monthly''
        download_root_dir n_workers force_redownload return_downloaded_files w
   \<and> ecco_podaac_s3_query (example_env snapshot_page False 1024 100)
        ''ECCO_L4_SSH_LLC0090GRID_SNAPSHOT_V4R4''
        ''1992-01-01T00:00:00Z'' ''1992-02-02T00:00:00Z'' ''daily''
     = Some (Inr [''s3://podaac/SSH_snap_1992-01-01T000000_ECCO_V4r4.nc'',
                  ''s3://podaac/SSH_snap_1992-01-02T000000_ECCO_V4r4.nc'',
                  ''s3://podaac/SSH_snap_1992-02-01T000000_ECCO_V4r4.nc''])
   \<and> ecco_podaac_s3_open (example_env snapshot_page False 1024 100)
        ''ECCO_L4_SSH_LLC0090GRID_SNAPSHOT_V4R4''
        ''1992-01-01T00:00:00Z'' ''1992-02-02T00:00:00Z'' ''daily''
     = Some (Inr (Items [S3File ''s3://podaac/SSH_snap_1992-01-01T000000_ECCO_V4r4.nc'',
                         S3File ''s3://podaac/SSH_snap_1992-02-01T000000_ECCO_V4r4.nc'']))"
proof -
  have i: "init_S3FileSystem (example_env snapshot_page False 1024 100) = Inr (example_store 1024)"
    by (simp add: example_env_def)
  have "ecco_podaac_s3_open (example_env snapshot_page False 1024 100)
        ''ECCO_L4_SSH_LLC0090GRID_SNAPSHOT_V4R4''
        ''1992-01-01T00:00:00Z'' ''1992-02-02T00:00:00Z'' ''daily''
     = Some (Inr (Items [S3File ''s3://podaac/SSH_snap_1992-01-01T000000_ECCO_V4r4.nc'',
                         S3File ''s3://podaac/SSH_snap_1992-02-01T000000_ECCO_V4r4.nc'']))"
    unfolding ecco_podaac_s3_open_def snapshot_query_monthly i
    by (simp add: open_files_example collapse_def del: open_files.simps)
  then show ?thesis
    by (simp add: snapshot_query_daily ecco_podaac_s3_open_def ecco_podaac_s3_get_def)
qed

subsection \<open>The reduction to a single day\<close>

lemma argmin_from_props:
  "xs \<noteq> [] \<Longrightarrow>
     argmin_from xs < length xs
     \<and> (\<forall>y\<in>set xs. xs ! argmin_from xs \<le> y)
     \<and> (\<forall>i<argmin_from xs. xs ! argmin_from xs < xs ! i)"
proof (induction xs)
  case Nil
  then show ?case by simp
next
  case (Cons x xs)
  show ?case
  proof (cases "list_all (\<lambda>y. x \<le> y) xs")
    case True
    then show ?thesis by (simp add: list_all_iff)
  next
    case False
    then have ne: "xs \<noteq> []" by auto
    from False obtain y where y: "y \<in> set xs" "y < x"
      by (auto simp: list_all_iff)
    from Cons.IH [OF ne] have
      lt: "argmin_from xs < length xs"
      and mn: "\<forall>y\<in>set xs. xs ! argmin_from xs \<le> y"
      and fi: "\<forall>i<argmin_from xs. xs ! argmin_from xs < xs ! i"
      by blast+
    from mn y have below: "xs ! argmin_from xs < x" by force
    have "\<forall>i<Suc (argmin_from xs). xs ! argmin_from xs < (x # xs) ! i"
    proof (intro allI impI)
      fix i assume "i < Suc (argmin_from xs)"
      then show "xs ! argmin_from xs < (x # xs) ! i"
        using below fi by (cases i) auto
    qed
    with False lt mn below show ?thesis by auto
  qed
qed

lemma collect_entries_eq:
  "collect_entries ev es ts fl =
     (ts @ map (\<lambda>e. datetime64_ns ev (time_start e)) es,
      fl @ List.map_filter (\<lambda>e. first_s3_link (links e)) es)"
  by (induction es arbitrary: ts fl) (auto simp: List.map_filter_simps split: option.splits)

lemma length_map_filter_le: "length (List.map_filter f xs) \<le> length xs"
  by (induction xs) (auto simp: List.map_filter_simps split: option.splits)

lemma granules_loop_lengths:
  assumes a: "granules_loop ev ps ts0 fl0 rq0 = Some (Inr (ts, fl, rq))"
    and b: "length fl0 \<le> length ts0"
  shows "length fl \<le> length ts"
proof -
  have "length fl0 \<le> length ts0 \<longrightarrow>
        (case Inr (ts, fl, rq) :: pyexc + int list \<times> string list \<times> string list of
           Inl e \<Rightarrow> True | Inr (t, f, r) \<Rightarrow> length f \<le> length t)"
  proof (rule granules_loop.raw_induct
      [where P = "\<lambda>ev ps ts0 fl0 rq0 res. length fl0 \<le> length ts0 \<longrightarrow>
          (case res of Inl e \<Rightarrow> True | Inr (t, f, r) \<Rightarrow> length f \<le> length t)", OF _ a])
    fix g :: "env \<Rightarrow> params \<Rightarrow> int list \<Rightarrow> string list \<Rightarrow> string list
               \<Rightarrow> (pyexc + int list \<times> string list \<times> string list) option"
    fix ev ps ts0 fl0 rq0 res
    assume IH: "\<And>ev ps ts0 fl0 rq0 res. g ev ps ts0 fl0 rq0 = Some res \<Longrightarrow>
        length fl0 \<le> length ts0 \<longrightarrow>
          (case res of Inl e \<Rightarrow> True | Inr (t, f, r) \<Rightarrow> length f \<le> length t)"
      and step: "(case get_results ev ps of
        Inl e \<Rightarrow> Some (Inl e)
      | Inr response \<Rightarrow>
          (case feed response of
             None \<Rightarrow>
               (case errors response of
                  None \<Rightarrow> Some (Inl (KeyError ''feed''))
                | Some [] \<Rightarrow> Some (Inl IndexError)
                | Some (m # ms) \<Rightarrow> Some (Inl (PyException m)))
           | Some entries \<Rightarrow>
               (if length entries < 2000
                then Some (Inr (fst (collect_entries ev entries ts0 fl0),
                                snd (collect_entries ev entries ts0 fl0),
                                rq0 @ [p_temporal ps]))
                else g ev
                       (ps\<lparr>p_temporal := next_temporal ev (p_temporal ps) entries\<rparr>)
                       (fst (collect_entries ev entries ts0 fl0))
                       (snd (collect_entries ev entries ts0 fl0))
                       (rq0 @ [p_temporal ps])))) = Some res"
    show "length fl0 \<le> length ts0 \<longrightarrow>
          (case res of Inl e \<Rightarrow> True | Inr (t, f, r) \<Rightarrow> length f \<le> length t)"
    proof
      assume le: "length fl0 \<le> length ts0"
      have grow: "\<And>es. length (snd (collect_entries ev es ts0 fl0))
                    \<le> length (fst (collect_entries ev es ts0 fl0))"
        using add_mono [OF le length_map_filter_le [of "\<lambda>e. first_s3_link (links e)"]]
        by (simp add: collect_entries_eq)
      show "case res of Inl e \<Rightarrow> True | Inr (t, f, r) \<Rightarrow> length f \<le> length t"
      proof (cases "get_results ev ps")
        case (Inl e)
        with step show ?thesis by auto
      next
        case (Inr response)
        show ?thesis
        proof (cases "feed response")
          case None
          with step Inr show ?thesis
            by (auto split: option.splits list.splits)
        next
          case (Some entries)
          show ?thesis
          proof (cases "length entries < 2000")
            case True
            with step Inr Some grow [of entries] show ?thesis by auto
          next
            case False
            with step Inr Some have
              "g ev (ps\<lparr>p_temporal := next_temporal ev (p_temporal ps) entries\<rparr>)
                 (fst (collect_entries ev entries ts0 fl0))
                 (snd (collect_entries ev entries ts0 fl0))
                 (rq0 @ [p_temporal ps]) = Some res"
              by simp
            from IH [OF this] grow [of entries] show ?thesis by blast
          qed
        qed
      qed
    qed
  qed
  with b show ?thesis by simp
qed

lemma single_day_at_most_one:
  assumes loop: "granules_loop ev ps [] [] [] = Some (Inr (ts, fl, rq))"
    and name: "str_in ''MONTHLY'' ShortName \<or> str_in ''DAILY'' ShortName"
    and many: "1 < length fl"
  shows "get_granules ev ps ShortName True StartDate =
           Some (Inr (take 1 (drop
             (argmin_from (map (\<lambda>t. \<bar>t - ns_of_day (datetime64_D ev StartDate)\<bar>) ts)) fl)))"
proof -
  from granules_loop_lengths [OF loop] many have "ts \<noteq> []" by auto
  with loop name many show ?thesis
    by (simp add: get_granules_def argmin_def)
qed

lemma single_day_nearest_when_aligned:
  assumes loop: "granules_loop ev ps [] [] [] = Some (Inr (ts, fl, rq))"
    and name: "str_in ''MONTHLY'' ShortName \<or> str_in ''DAILY'' ShortName"
    and many: "1 < length fl"
    and aligned: "length ts = length fl"
  shows "\<exists>i<length fl.
           get_granules ev ps ShortName True StartDate = Some (Inr [fl ! i])
           \<and> (\<forall>j<length ts. \<bar>ts ! i - ns_of_day (datetime64_D ev StartDate)\<bar>
                              \<le> \<bar>ts ! j - ns_of_day (datetime64_D ev StartDate)\<bar>)
           \<and> (\<forall>j<i. \<bar>ts ! i - ns_of_day (datetime64_D ev StartDate)\<bar>
                              < \<bar>ts ! j - ns_of_day (datetime64_D ev StartDate)\<bar>)"
proof -
  let ?d = "map (\<lambda>t. \<bar>t - ns_of_day (datetime64_D ev StartDate)\<bar>) ts"
  let ?i = "argmin_from ?d"
  from many aligned have ne: "?d \<noteq> []" by auto
  from argmin_from_props [OF ne] have
    lt0: "?i < length ?d"
    and mn: "\<forall>y\<in>set ?d. ?d ! ?i \<le> y"
    and fi: "\<forall>j<?i. ?d ! ?i < ?d ! j"
    by blast+
  from lt0 have lt: "?i < length ts" by simp
  from lt aligned have "take 1 (drop ?i fl) = [fl ! ?i]"
    by (simp add: take_Suc_conv_app_nth [of 0] Cons_nth_drop_Suc [symmetric] take_Suc hd_drop_conv_nth)
  with single_day_at_most_one [OF loop name many, of StartDate]
  have g: "get_granules ev ps ShortName True StartDate = Some (Inr [fl ! ?i])" by simp
  have m2: "\<forall>j<length ts. \<bar>ts ! ?i - ns_of_day (datetime64_D ev StartDate)\<bar>
                              \<le> \<bar>ts ! j - ns_of_day (datetime64_D ev StartDate)\<bar>"
  proof (intro allI impI)
    fix j assume j: "j < length ts"
    then have "?d ! j \<in> set ?d" by (metis length_map nth_mem)
    with mn have "?d ! ?i \<le> ?d ! j" by blast
    with j lt show "\<bar>ts ! ?i - ns_of_day (datetime64_D ev StartDate)\<bar>
                              \<le> \<bar>ts ! j - ns_of_day (datetime64_D ev StartDate)\<bar>" by simp
  qed
  have f2: "\<forall>j<?i. \<bar>ts ! ?i - ns_of_day (datetime64_D ev StartDate)\<bar>
                              < \<bar>ts ! j - ns_of_day (datetime64_D ev StartDate)\<bar>"
  proof (intro allI impI)
    fix j assume j: "j < ?i"
    with fi have "?d ! ?i < ?d ! j" by blast
    with j lt show "\<bar>ts ! ?i - ns_of_day (datetime64_D ev StartDate)\<bar>
                              < \<bar>ts ! j - ns_of_day (datetime64_D ev StartDate)\<bar>" by simp
  qed
  from lt aligned g m2 f2 show ?thesis by auto
qed

lemma daily_loop:
  "granules_loop (example_env daily_page True 1024 100)
      \<lparr>p_ShortName = ''ECCO_L4_SSH_05DEG_DAILY_V4R4'',
       p_temporal = ''1992-01-02,1992-01-02''\<rparr> [] [] []
   = Some (Inr ([ns_of_day 8035, ns_of_day 8036, ns_of_day 8037],
        [''s3://podaac/SSH_day_mean_1992-01-02_ECCO_V4r4.nc'',
         ''s3://podaac/SSH_day_mean_1992-01-03_ECCO_V4r4.nc''],
        [''1992-01-02,1992-01-02'']))"
  apply (subst granules_loop.simps)
  apply (simp add: example_env_def daily_page_def granule_def https_only_granule_def
           s3_link_def https_link_def example_day_def)
  done

text \<open>
  C3. For a \<^verbatim>\<open>MONTHLY\<close> or \<^verbatim>\<open>DAILY\<close> dataset, a single requested day and more than one
  collected reference, \<^verbatim>\<open>get_granules\<close> keeps the reference that stands, in the list of
  references, at the position that the nearest start time has in the list of start
  times (\<open>single_day_at_most_one\<close>). The two lists run in step only while every entry
  has a direct S3 link (\<open>single_day_nearest_when_aligned\<close>). On the example catalog
  the first of three daily granules has no such link: the query for 1992-01-02 finds
  the granule of that day at distance 0, and returns the reference of 1992-01-03.
\<close>

theorem single_day_returns_wrong_granule:
  "ecco_podaac_s3_query (example_env daily_page True 1024 100)
      ''ECCO_L4_SSH_05DEG_DAILY_V4R4'' ''1992-01-02'' ''1992-01-02'' ''monthly''
     = Some (Inr [''s3://podaac/SSH_day_mean_1992-01-03_ECCO_V4r4.nc''])
   \<and> map (\<lambda>e. \<bar>datetime64_ns (example_env daily_page True 1024 100) (time_start e)
                - ns_of_day (datetime64_D (example_env daily_page True 1024 100) ''1992-01-02'')\<bar>)
        daily_page = [86400000000000, 0, 86400000000000]
   \<and> map (\<lambda>e. first_s3_link (links e)) daily_page
     = [None, Some ''s3://podaac/SSH_day_mean_1992-01-02_ECCO_V4r4.nc'',
        Some ''s3://podaac/SSH_day_mean_1992-01-03_ECCO_V4r4.nc'']"
proof -
  let ?E = "example_env daily_page True 1024 100"
  have da: "date_adjustment ?E = (\<lambda>n sd ed. Inr (sd, ed, True))"
    and lg: "setup_earthdata_login_auth ?E = None"
    and dd: "datetime64_D ?E = example_day"
    and dn: "datetime64_ns ?E = (\<lambda>s. ns_of_day (example_day s))"
    by (simp_all add: example_env_def)
  have q: "ecco_podaac_s3_query ?E
      ''ECCO_L4_SSH_05DEG_DAILY_V4R4'' ''1992-01-02'' ''1992-01-02'' ''monthly''
     = Some (Inr [''s3://podaac/SSH_day_mean_1992-01-03_ECCO_V4r4.nc''])"
    unfolding ecco_podaac_s3_query_def get_granules_def da lg dd
    by (simp add: daily_loop argmin_def ns_of_day_def example_day_def)
  have t: "map (\<lambda>e. \<bar>datetime64_ns ?E (time_start e) - ns_of_day (datetime64_D ?E ''1992-01-02'')\<bar>)
        daily_page = [86400000000000, 0, 86400000000000]"
    unfolding dd dn
    by (simp add: daily_page_def granule_def https_only_granule_def ns_of_day_def example_day_def)
  have l: "map (\<lambda>e. first_s3_link (links e)) daily_page
     = [None, Some ''s3://podaac/SSH_day_mean_1992-01-02_ECCO_V4r4.nc'',
        Some ''s3://podaac/SSH_day_mean_1992-01-03_ECCO_V4r4.nc'']"
    by (simp add: daily_page_def granule_def https_only_granule_def s3_link_def https_link_def)
  from q t l show ?thesis by blast
qed

subsection \<open>Results of exactly one item\<close>




section \<open>Properties of the disk-space probe\<close>

lemma parent_dir_parent: "parent_dir q = Inr (parent q)"
  by (simp add: parent_dir_def parent_def join_def)

lemma query_disk_never_minus_one:
  "query_disk usage q \<noteq> Some (Inl u)"
proof
  assume a: "query_disk usage q = Some (Inl u)"
  have "\<forall>v. (Inl u :: unit + nat) \<noteq> Inl v"
  proof (rule query_disk.raw_induct
      [where P = "\<lambda>us d res. \<forall>v. res \<noteq> Inl v", OF _ a])
    fix f :: "(string \<Rightarrow> nat option) \<Rightarrow> string \<Rightarrow> (unit + nat) option"
    fix us d and res :: "unit + nat"
    assume IH: "\<And>us' b y. f us' b = Some y \<Longrightarrow> \<forall>v. y \<noteq> Inl v"
      and step: "(case us d of
                    None \<Rightarrow> (case parent_dir d of Inl e \<Rightarrow> Some (Inl ()) | Inr d' \<Rightarrow> f us d')
                  | Some a \<Rightarrow> Some (Inr a)) = Some res"
    show "\<forall>v. res \<noteq> Inl v"
    proof (cases "us d")
      case None
      with step have "f us (parent d) = Some res" by (simp add: parent_dir_parent)
      then show ?thesis by (rule IH)
    next
      case (Some a)
      with step show ?thesis by auto
    qed
  qed
  then show False by blast
qed

lemma query_disk_needs_usable_ancestor:
  assumes a: "query_disk usage q = Some r"
  shows "\<exists>n. usage ((parent ^^ n) q) \<noteq> None"
proof (rule query_disk.raw_induct
    [where P = "\<lambda>us d res. \<exists>n. us ((parent ^^ n) d) \<noteq> None", OF _ a])
  fix f :: "(string \<Rightarrow> nat option) \<Rightarrow> string \<Rightarrow> (unit + nat) option"
  fix us d and res :: "unit + nat"
  assume IH: "\<And>us' b y. f us' b = Some y \<Longrightarrow> \<exists>n. us' ((parent ^^ n) b) \<noteq> None"
    and step: "(case us d of
                  None \<Rightarrow> (case parent_dir d of Inl e \<Rightarrow> Some (Inl ()) | Inr d' \<Rightarrow> f us d')
                | Some a \<Rightarrow> Some (Inr a)) = Some res"
  show "\<exists>n. us ((parent ^^ n) d) \<noteq> None"
  proof (cases "us d")
    case (Some a)
    then have "us ((parent ^^ 0) d) \<noteq> None" by simp
    then show ?thesis by blast
  next
    case None
    with step have "f us (parent d) = Some res" by (simp add: parent_dir_parent)
    from IH [OF this] obtain n where "us ((parent ^^ n) (parent d)) \<noteq> None" ..
    then have "us ((parent ^^ Suc n) d) \<noteq> None" by (simp add: funpow_swap1)
    then show ?thesis by blast
  qed
qed

lemma query_disk_reaches_ancestor:
  "usage ((parent ^^ n) q) = Some a \<Longrightarrow> (\<forall>m<n. usage ((parent ^^ m) q) = None) \<Longrightarrow>
     query_disk usage q = Some (Inr a)"
proof (induction n arbitrary: q)
  case 0
  then show ?case by (subst query_disk.simps) simp
next
  case (Suc n)
  from Suc.prems(2) have here: "usage q = None" by force
  have "usage ((parent ^^ n) (parent q)) = Some a"
    using Suc.prems(1) by (simp add: funpow_swap1)
  moreover have "\<forall>m<n. usage ((parent ^^ m) (parent q)) = None"
  proof (intro allI impI)
    fix m assume "m < n"
    then have "usage ((parent ^^ Suc m) q) = None" using Suc.prems(2) by blast
    then show "usage ((parent ^^ m) (parent q)) = None" by (simp add: funpow_swap1)
  qed
  ultimately have "query_disk usage (parent q) = Some (Inr a)" by (rule Suc.IH)
  with here show ?case
    by (subst query_disk.simps) (simp add: parent_dir_parent)
qed

lemma parent_relative: "(parent ^^ n) ''ecco_data/v4r4'' \<in> {''ecco_data/v4r4'', ''ecco_data'', ''''}"
proof (induction n)
  case 0
  show ?case by simp
next
  case (Suc n)
  have "parent ''ecco_data/v4r4'' = ''ecco_data''" "parent ''ecco_data'' = ''''" "parent '''' = ''''"
    by (simp_all add: parent_def split_path_def basename_def rstrip_slash_def)
  with Suc show ?case by auto
qed

lemma probe_relative_diverges:
  "query_disk (disk_usage_free (example_env single_page False 1024 100) (fs example_machine))
     ''ecco_data/v4r4'' = None"
proof (rule ccontr)
  let ?usage = "disk_usage_free (example_env single_page False 1024 100) (fs example_machine)"
  assume "query_disk ?usage ''ecco_data/v4r4'' \<noteq> None"
  then obtain r where "query_disk ?usage ''ecco_data/v4r4'' = Some r"
    by blast
  from query_disk_needs_usable_ancestor [OF this] obtain n where
    "?usage ((parent ^^ n) ''ecco_data/v4r4'') \<noteq> None" ..
  then have "(parent ^^ n) ''ecco_data/v4r4'' \<in> {''/'', ''/home''}"
    by (simp add: example_env_def example_machine_def split: if_splits)
  with parent_relative [of n] show False by auto
qed

text \<open>
  C8. The loop that probes the free disk space never takes the \<^verbatim>\<open>return -1\<close> of
  line 643, and it returns only when some directory on the way up reports its space
  (\<open>query_disk_needs_usable_ancestor\<close>, \<open>query_disk_reaches_ancestor\<close>). For the
  relative root \<^verbatim>\<open>ecco_data/v4r4\<close> on a machine that has no such directory, and an
  empty list of datasets, so that no \<^verbatim>\<open>mkdir\<close> creates the root,
  \<^verbatim>\<open>ecco_podaac_s3_get_diskaware\<close> never returns: the walk reaches the empty path and
  stays there.
\<close>

theorem disk_probe_diverges:
  "query_disk usage query_dir \<noteq> Some (Inl ())
   \<and> ecco_podaac_s3_get_diskaware (example_env single_page False 1024 100) []
        ''1992-01-01'' ''1992-01-31'' None (Some ''ecco_data/v4r4'') (1 / 2) 6 False
        example_machine = None"
proof -
  have i: "init_S3FileSystem (example_env single_page False 1024 100) = Inr (example_store 1024)"
    by (simp add: example_env_def)
  have "ecco_podaac_s3_get_diskaware (example_env single_page False 1024 100) []
        ''1992-01-01'' ''1992-01-31'' None (Some ''ecco_data/v4r4'') (1 / 2) 6 False
        example_machine = None"
    unfolding ecco_podaac_s3_get_diskaware_def i
    by (simp add: Let_def probe_relative_diverges)
  with query_disk_never_minus_one show ?thesis by blast
qed

section \<open>Properties of the pagination loop\<close>

lemma map_filter_app:
  "List.map_filter f (xs @ ys) = List.map_filter f xs @ List.map_filter f ys"
  by (simp add: List.map_filter_def)

lemma first_s3_link_find:
  "first_s3_link ls =
     map_option href (find (\<lambda>l. str_in ''direct download access via S3'' (title l)) ls)"
  by (induction ls) simp_all

lemma first_s3_link_reference: "(\<lambda>e. first_s3_link (links e)) = s3_reference"
  by (simp add: fun_eq_iff first_s3_link_find s3_reference_def)

lemma next_temporal_one_day_past:
  "next_temporal ev temporal page = one_day_past ev temporal page"
  by (simp add: next_temporal_def one_day_past_def end_day_def)

lemma granules_loop_served:
  "served ev ps pages \<Longrightarrow>
     granules_loop ev ps ts fl rq =
       Some (Inr (ts @ map (\<lambda>e. datetime64_ns ev (time_start e)) (concat pages),
                  fl @ List.map_filter s3_reference (concat pages),
                  rq @ requests ev (p_temporal ps) pages))"
proof (induction ev ps pages arbitrary: ts fl rq rule: served.induct)
  case (1 ev ps)
  then show ?case by simp
next
  case (2 ev ps page)
  then obtain r where r: "get_results ev ps = Inr r" "feed r = Some page"
    and short: "length page < 2000"
    by (auto simp: answers_def split: sum.splits)
  show ?case
    by (subst granules_loop.simps)
       (simp add: r short collect_entries_eq first_s3_link_reference)
next
  case (3 ev ps page later rest)
  let ?ps' = "ps\<lparr>p_temporal := one_day_past ev (p_temporal ps) page\<rparr>"
  from "3.prems" obtain r where r: "get_results ev ps = Inr r" "feed r = Some page"
    and full: "length page = 2000"
    and rest: "served ev ?ps' (later # rest)"
    by (auto simp: answers_def split: sum.splits)
  have step: "granules_loop ev ps ts fl rq =
      granules_loop ev ?ps'
        (ts @ map (\<lambda>e. datetime64_ns ev (time_start e)) page)
        (fl @ List.map_filter s3_reference page)
        (rq @ [p_temporal ps])"
    by (subst granules_loop.simps)
       (simp add: r full collect_entries_eq first_s3_link_reference
          next_temporal_one_day_past)
  show ?case
    unfolding step "3.IH" [OF rest]
    by (simp add: map_filter_app)
qed

lemma map_filter_all_some:
  "list_all (\<lambda>x. f x \<noteq> None) xs \<Longrightarrow> List.map_filter f xs = map (\<lambda>x. the (f x)) xs"
  by (induction xs) (auto simp: List.map_filter_simps split: option.splits)

lemma sorted_le_last:
  "sorted (map f xs) \<Longrightarrow> x \<in> set xs \<Longrightarrow> f x \<le> f (last xs)"
proof (induction xs)
  case Nil
  then show ?case by simp
next
  case (Cons y ys)
  show ?case
  proof (cases "ys = []")
    case True
    with Cons.prems show ?thesis by simp
  next
    case False
    then have l: "last ys \<in> set ys" by simp
    from Cons.prems have s: "sorted (map f ys)" and le: "\<forall>z\<in>set ys. f y \<le> f z"
      by simp_all
    show ?thesis
    proof (cases "x = y")
      case True
      with le l False show ?thesis by simp
    next
      case neq: False
      with Cons.prems have "x \<in> set ys" by simp
      from Cons.IH [OF s this] False show ?thesis by simp
    qed
  qed
qed

text \<open>
  No entry is served twice: a page that follows a full page was asked for from the
  day after the end of the full page's last entry, and no entry of the full page ends
  after its last entry.
\<close>

lemma pages_once:
  "served ev ps pages \<Longrightarrow>
   lower_bound_honoured ev (p_temporal ps) pages \<Longrightarrow>
   days_read_back ev (p_temporal ps) pages \<Longrightarrow>
   list_all (in_order ev) pages \<Longrightarrow>
     distinct (concat pages)
     \<and> (\<forall>e\<in>set (concat pages). lower_bound ev (p_temporal ps) \<le> end_day ev e)"
proof (induction ev ps pages rule: served.induct)
  case (1 ev ps)
  then show ?case by simp
next
  case (2 ev ps page)
  then show ?case by (simp add: in_order_def list_all_iff)
next
  case (3 ev ps page later rest)
  let ?t' = "one_day_past ev (p_temporal ps) page"
  let ?ps' = "ps\<lparr>p_temporal := ?t'\<rparr>"
  from "3.prems" have full: "length page = 2000" and rest: "served ev ?ps' (later # rest)"
    by simp_all
  from "3.prems" have hon: "\<forall>e\<in>set page. lower_bound ev (p_temporal ps) \<le> end_day ev e"
    and hon': "lower_bound_honoured ev (p_temporal ?ps') (later # rest)"
    by (simp_all add: list_all_iff)
  from "3.prems" have rb: "lower_bound ev ?t' = end_day ev (last page) + 1"
    and rb': "days_read_back ev (p_temporal ?ps') (later # rest)"
    by simp_all
  from "3.prems" have ord: "sorted (map (end_day ev) page)" and dis: "distinct page"
    by (simp_all add: in_order_def)
  from "3.prems" have ord': "list_all (in_order ev) (later # rest)"
    by simp
  from "3.IH" [OF rest hon' rb' ord']
  have dis': "distinct (concat (later # rest))"
    and low': "\<forall>e\<in>set (concat (later # rest)). lower_bound ev ?t' \<le> end_day ev e"
    by simp_all
  from full have ne: "page \<noteq> []" by auto
  then have lst: "last page \<in> set page" by simp
  have before: "\<forall>e\<in>set page. end_day ev e \<le> end_day ev (last page)"
  proof
    fix e
    assume "e \<in> set page"
    with ord show "end_day ev e \<le> end_day ev (last page)" by (rule sorted_le_last)
  qed
  have after: "\<forall>e\<in>set (concat (later # rest)). end_day ev (last page) < end_day ev e"
  proof
    fix e
    assume "e \<in> set (concat (later # rest))"
    with low' have "lower_bound ev ?t' \<le> end_day ev e" by (rule bspec)
    with rb show "end_day ev (last page) < end_day ev e" by simp
  qed
  have disj: "set page \<inter> set (concat (later # rest)) = {}"
  proof (rule ccontr)
    assume "set page \<inter> set (concat (later # rest)) \<noteq> {}"
    then obtain e where e1: "e \<in> set page" and e2: "e \<in> set (concat (later # rest))"
      by blast
    from before e1 have "end_day ev e \<le> end_day ev (last page)" by (rule bspec)
    moreover from after e2 have "end_day ev (last page) < end_day ev e" by (rule bspec)
    ultimately show False by simp
  qed
  have d: "distinct (concat (page # later # rest))"
    using dis dis' disj by simp
  have l: "\<forall>e\<in>set (concat (page # later # rest)). lower_bound ev (p_temporal ps) \<le> end_day ev e"
  proof
    fix e
    assume "e \<in> set (concat (page # later # rest))"
    then have "e \<in> set page \<or> e \<in> set (concat (later # rest))" by simp
    then consider "e \<in> set page" | "e \<in> set (concat (later # rest))" by blast
    then show "lower_bound ev (p_temporal ps) \<le> end_day ev e"
    proof cases
      case 1
      with hon show ?thesis by (rule bspec)
    next
      case 2
      with after have "end_day ev (last page) < end_day ev e" by (rule bspec)
      moreover from hon lst have "lower_bound ev (p_temporal ps) \<le> end_day ev (last page)"
        by (rule bspec)
      ultimately show ?thesis by simp
    qed
  qed
  from d l show ?case by (rule conjI)
qed

lemma numbered_page_length: "length (numbered_page a b) = b - a"
  by (simp add: numbered_page_def)

lemma numbered_page_last: "a < b \<Longrightarrow> last (numbered_page a b) = numbered_granule (b - 1)"
  by (simp add: numbered_page_def last_map)

lemma upt_split: "a \<le> b \<Longrightarrow> b \<le> c \<Longrightarrow> [a..<b] @ [b..<c] = [a..<c]"
  using upt_add_eq_append [of a b "c - b"] by simp

lemma numbered_page_append:
  "a \<le> b \<Longrightarrow> b \<le> c \<Longrightarrow> numbered_page a b @ numbered_page b c = numbered_page a c"
  unfolding numbered_page_def map_append [symmetric] by (simp only: upt_split)

lemma numbered_pages_concat:
  "concat [numbered_page 0 2000, numbered_page 2000 4000, numbered_page 4000 4500]
     = numbered_page 0 4500"
  by (simp add: numbered_page_append)

lemma paged_day_unary: "paged_day (replicate i (CHR ''|'')) = int i"
  by (cases i) (simp_all add: paged_day_def)

lemma numbered_end_day: "end_day paged_env (numbered_granule i) = int i"
  by (simp add: end_day_def paged_env_def numbered_granule_def paged_day_unary)

lemma numbered_start: 
  "datetime64_ns paged_env (time_start (numbered_granule i)) = ns_of_day (int i)"
  by (simp add: paged_env_def numbered_granule_def paged_day_unary)

lemma numbered_reference:
  "s3_reference (numbered_granule i) = Some (''s3://podaac/'' @ replicate i (CHR ''g''))"
  by (simp add: s3_reference_def numbered_granule_def s3_link_def)

lemma replicate_inj: "replicate i c = replicate j c \<Longrightarrow> i = j"
  by (drule arg_cong [where f = length]) simp

lemma numbered_granule_inj: "numbered_granule i = numbered_granule j \<Longrightarrow> i = j"
  by (auto simp: numbered_granule_def dest: replicate_inj)

lemma one_day_past_first:
  "one_day_past paged_env ''day-000000,day-004500'' (numbered_page 0 2000)
   = ''day-002000,day-004500''"
  by (simp add: one_day_past_def numbered_page_last numbered_end_day) (simp add: paged_env_def)

lemma one_day_past_second:
  "one_day_past paged_env ''day-002000,day-004500'' (numbered_page 2000 4000)
   = ''day-004000,day-004500''"
  by (simp add: one_day_past_def numbered_page_last numbered_end_day) (simp add: paged_env_def)

lemma paged_env_served:
  "served paged_env \<lparr>p_ShortName = ''ECCO_L4_SSH_05DEG_DAILY_V4R4'',
                      p_temporal = ''day-000000,day-004500''\<rparr>
     [numbered_page 0 2000, numbered_page 2000 4000, numbered_page 4000 4500]"
  by (simp add: one_day_past_first one_day_past_second numbered_page_length)
     (simp add: answers_def paged_env_def)

lemma paged_env_requests:
  "requests paged_env ''day-000000,day-004500''
     [numbered_page 0 2000, numbered_page 2000 4000, numbered_page 4000 4500]
   = [''day-000000,day-004500'', ''day-002000,day-004500'', ''day-004000,day-004500'']"
  by (simp add: one_day_past_first one_day_past_second)

lemma paged_env_lower_bounds:
  "lower_bound paged_env ''day-000000,day-004500'' = 0"
  "lower_bound paged_env ''day-002000,day-004500'' = 2000"
  "lower_bound paged_env ''day-004000,day-004500'' = 4000"
  by (simp_all add: lower_bound_def paged_env_def paged_day_def)

lemma paged_env_honoured:
  "lower_bound_honoured paged_env ''day-000000,day-004500''
     [numbered_page 0 2000, numbered_page 2000 4000, numbered_page 4000 4500]"
  unfolding lower_bound_honoured.simps one_day_past_first one_day_past_second
    paged_env_lower_bounds
  by (simp add: list_all_iff numbered_page_def numbered_end_day del: upt_rec_numeral)

lemma paged_env_read_back:
  "days_read_back paged_env ''day-000000,day-004500''
     [numbered_page 0 2000, numbered_page 2000 4000, numbered_page 4000 4500]"
  unfolding days_read_back.simps one_day_past_first one_day_past_second
    paged_env_lower_bounds
  by (simp add: numbered_page_last numbered_end_day)

lemma numbered_page_in_order: "in_order paged_env (numbered_page a b)"
proof -
  have "map (end_day paged_env) (numbered_page a b) = map int [a..<b]"
    by (simp add: numbered_page_def comp_def numbered_end_day del: upt_rec_numeral)
  moreover have "sorted (map int [a..<b])"
    by (simp add: sorted_map del: upt_rec_numeral)
  ultimately have s: "sorted (map (end_day paged_env) (numbered_page a b))"
    by (simp only:)
  have "inj_on numbered_granule (set [a..<b])"
    by (rule inj_onI) (rule numbered_granule_inj)
  then have d: "distinct (numbered_page a b)"
    unfolding numbered_page_def by (simp add: distinct_map del: upt_rec_numeral)
  from s d show ?thesis unfolding in_order_def by (rule conjI)
qed

lemma numbered_page_references:
  "List.map_filter s3_reference (numbered_page a b)
   = map (\<lambda>i. ''s3://podaac/'' @ replicate i (CHR ''g'')) [a..<b]"
  by (simp add: List.map_filter_def numbered_page_def comp_def numbered_reference
        del: upt_rec_numeral)

lemma numbered_page_starts:
  "map (\<lambda>e. datetime64_ns paged_env (time_start e)) (numbered_page a b)
   = map (\<lambda>i. ns_of_day (int i)) [a..<b]"
  by (simp add: numbered_page_def comp_def numbered_start del: upt_rec_numeral)

text \<open>
  C2. The catalog serves the query a sequence of pages, full pages of exactly 2000
  entries and then one shorter page, each page in the order of its end days and
  answering a request whose lower bound it honours; after a full page the request is
  the one whose lower bound is one day past the end of the page's last entry. Then the
  loop ends on the short page, has sent exactly these requests, and has collected,
  page after page and in order, the start time of every entry and the address of the
  first direct S3 link of every entry that has one. No entry is collected twice, at a
  page boundary or elsewhere. When every entry has such a link there is one reference
  for each entry of each page, and the references are distinct when those of distinct
  entries are.
\<close>

theorem pagination_collects_every_page_once:
  assumes "served ev ps pages"
    and "lower_bound_honoured ev (p_temporal ps) pages"
    and "days_read_back ev (p_temporal ps) pages"
    and "list_all (in_order ev) pages"
  shows "\<exists>collected time_starts s3_files_list.
           granules_loop ev ps [] [] []
             = Some (Inr (time_starts, s3_files_list, requests ev (p_temporal ps) pages))
         \<and> collected = concat pages
         \<and> distinct collected
         \<and> time_starts = map (\<lambda>e. datetime64_ns ev (time_start e)) collected
         \<and> s3_files_list = List.map_filter s3_reference collected
         \<and> (list_all (\<lambda>e. s3_reference e \<noteq> None) collected \<longrightarrow>
              s3_files_list = map (\<lambda>e. the (s3_reference e)) collected
              \<and> length s3_files_list = sum_list (map length pages)
              \<and> (inj_on s3_reference (set collected) \<longrightarrow> distinct s3_files_list))"
proof -
  have loop: "granules_loop ev ps [] [] [] =
           Some (Inr (map (\<lambda>e. datetime64_ns ev (time_start e)) (concat pages),
                      List.map_filter s3_reference (concat pages),
                      requests ev (p_temporal ps) pages))"
    using granules_loop_served [OF assms(1), of "[]" "[]" "[]"] by simp
  have dis: "distinct (concat pages)"
    using pages_once [OF assms] by blast
  have refs: "list_all (\<lambda>e. s3_reference e \<noteq> None) (concat pages) \<longrightarrow>
              List.map_filter s3_reference (concat pages)
                = map (\<lambda>e. the (s3_reference e)) (concat pages)
              \<and> length (List.map_filter s3_reference (concat pages))
                  = sum_list (map length pages)
              \<and> (inj_on s3_reference (set (concat pages)) \<longrightarrow>
                   distinct (List.map_filter s3_reference (concat pages)))"
  proof (intro impI conjI)
    assume a: "list_all (\<lambda>e. s3_reference e \<noteq> None) (concat pages)"
    show eq: "List.map_filter s3_reference (concat pages)
                = map (\<lambda>e. the (s3_reference e)) (concat pages)"
      by (rule map_filter_all_some [OF a])
    show "length (List.map_filter s3_reference (concat pages)) = sum_list (map length pages)"
      unfolding eq by (simp add: length_concat)
    assume i: "inj_on s3_reference (set (concat pages))"
    have "inj_on (\<lambda>e. the (s3_reference e)) (set (concat pages))"
    proof (rule inj_onI)
      fix x y
      assume x: "x \<in> set (concat pages)" and y: "y \<in> set (concat pages)"
        and e: "the (s3_reference x) = the (s3_reference y)"
      from a have all: "\<forall>z\<in>set (concat pages). s3_reference z \<noteq> None"
        unfolding list_all_iff .
      from all x have "s3_reference x \<noteq> None" by (rule bspec)
      moreover from all y have "s3_reference y \<noteq> None" by (rule bspec)
      ultimately have "s3_reference x = s3_reference y" using e by auto
      with i show "x = y" using x y by (rule inj_onD)
    qed
    with dis show "distinct (List.map_filter s3_reference (concat pages))"
      unfolding eq by (simp add: distinct_map)
  qed
  from loop dis refs show ?thesis by blast
qed

theorem pagination_collects_every_page_once_witness:
  "served paged_env \<lparr>p_ShortName = ''ECCO_L4_SSH_05DEG_DAILY_V4R4'',
                      p_temporal = ''day-000000,day-004500''\<rparr>
     [numbered_page 0 2000, numbered_page 2000 4000, numbered_page 4000 4500]
   \<and> lower_bound_honoured paged_env ''day-000000,day-004500''
       [numbered_page 0 2000, numbered_page 2000 4000, numbered_page 4000 4500]
   \<and> days_read_back paged_env ''day-000000,day-004500''
       [numbered_page 0 2000, numbered_page 2000 4000, numbered_page 4000 4500]
   \<and> list_all (in_order paged_env)
       [numbered_page 0 2000, numbered_page 2000 4000, numbered_page 4000 4500]
   \<and> granules_loop paged_env
       \<lparr>p_ShortName = ''ECCO_L4_SSH_05DEG_DAILY_V4R4'',
        p_temporal = ''day-000000,day-004500''\<rparr> [] [] []
     = Some (Inr (map (\<lambda>i. ns_of_day (int i)) [0..<4500],
                  map (\<lambda>i. ''s3://podaac/'' @ replicate i (CHR ''g'')) [0..<4500],
                  [''day-000000,day-004500'', ''day-002000,day-004500'',
                   ''day-004000,day-004500'']))
   \<and> length (map (\<lambda>i. ''s3://podaac/'' @ replicate i (CHR ''g'')) [0..<4500]) = 4500
   \<and> distinct (map (\<lambda>i. ''s3://podaac/'' @ replicate i (CHR ''g'')) [0..<4500])"
proof -
  let ?ps = "\<lparr>p_ShortName = ''ECCO_L4_SSH_05DEG_DAILY_V4R4'',
              p_temporal = ''day-000000,day-004500''\<rparr>"
  let ?pages = "[numbered_page 0 2000, numbered_page 2000 4000, numbered_page 4000 4500]"
  let ?refs = "map (\<lambda>i. ''s3://podaac/'' @ replicate i (CHR ''g'')) [0..<4500]"
  have hon: "lower_bound_honoured paged_env (p_temporal ?ps) ?pages"
    unfolding params.select_convs by (rule paged_env_honoured)
  have rb: "days_read_back paged_env (p_temporal ?ps) ?pages"
    unfolding params.select_convs by (rule paged_env_read_back)
  have ord: "list_all (in_order paged_env) ?pages"
    by (simp add: numbered_page_in_order)
  have rq: "requests paged_env (p_temporal ?ps) ?pages
      = [''day-000000,day-004500'', ''day-002000,day-004500'', ''day-004000,day-004500'']"
    unfolding params.select_convs by (rule paged_env_requests)
  from pagination_collects_every_page_once [OF paged_env_served hon rb ord]
  obtain collected time_starts s3_files_list where
    all: "granules_loop paged_env ?ps [] [] []
             = Some (Inr (time_starts, s3_files_list,
                          requests paged_env (p_temporal ?ps) ?pages))
         \<and> collected = concat ?pages
         \<and> distinct collected
         \<and> time_starts = map (\<lambda>e. datetime64_ns paged_env (time_start e)) collected
         \<and> s3_files_list = List.map_filter s3_reference collected
         \<and> (list_all (\<lambda>e. s3_reference e \<noteq> None) collected \<longrightarrow>
              s3_files_list = map (\<lambda>e. the (s3_reference e)) collected
              \<and> length s3_files_list = sum_list (map length ?pages)
              \<and> (inj_on s3_reference (set collected) \<longrightarrow> distinct s3_files_list))"
    by (elim exE) (rule that)
  note loop = all [THEN conjunct1]
  note c = all [THEN conjunct2, THEN conjunct1]
  note ts = all [THEN conjunct2, THEN conjunct2, THEN conjunct2, THEN conjunct1]
  note fl = all [THEN conjunct2, THEN conjunct2, THEN conjunct2, THEN conjunct2,
                 THEN conjunct1]
  note cond = all [THEN conjunct2, THEN conjunct2, THEN conjunct2, THEN conjunct2,
                   THEN conjunct2]
  from c have c': "collected = numbered_page 0 4500"
    unfolding numbered_pages_concat .
  from ts have ts': "time_starts = map (\<lambda>i. ns_of_day (int i)) [0..<4500]"
    unfolding c' numbered_page_starts .
  from fl have fl': "s3_files_list = ?refs"
    unfolding c' numbered_page_references .
  have has: "list_all (\<lambda>e. s3_reference e \<noteq> None) collected"
    unfolding c'
    by (simp add: list_all_iff numbered_page_def numbered_reference del: upt_rec_numeral)
  have inj: "inj_on s3_reference (set collected)"
    unfolding c'
    by (auto simp: inj_on_def numbered_page_def numbered_reference
          dest: replicate_inj simp del: upt_rec_numeral)
  note sure = cond [THEN mp, OF has]
  from sure [THEN conjunct2, THEN conjunct2, THEN mp, OF inj]
  have dis: "distinct ?refs"
    unfolding fl' .
  from sure [THEN conjunct2, THEN conjunct1]
  have "length ?refs = sum_list (map length ?pages)"
    unfolding fl' .
  also have "sum_list (map length ?pages) = 4500"
    by (simp add: numbered_page_length)
  finally have len: "length ?refs = 4500" .
  from loop have loop': "granules_loop paged_env ?ps [] [] []
     = Some (Inr (map (\<lambda>i. ns_of_day (int i)) [0..<4500], ?refs,
                  [''day-000000,day-004500'', ''day-002000,day-004500'',
                   ''day-004000,day-004500'']))"
    unfolding rq ts' fl' .
  from hon have hon': "lower_bound_honoured paged_env ''day-000000,day-004500'' ?pages"
    unfolding params.select_convs .
  from rb have rb': "days_read_back paged_env ''day-000000,day-004500'' ?pages"
    unfolding params.select_convs .
  show ?thesis
    by (intro conjI paged_env_served hon' rb' ord loop' len dis)
qed

section \<open>Properties of the choice between download and remote opening\<close>

lemma sequential_downloads_paths:
  assumes "sequential_downloads s3 us d f w = (Inr ps, w')"
  shows "ps = map (\<lambda>u. join d [basename u]) us"
proof -
  have "download_loop s3 us d f [] w = (Inr ps, w')"
    by (simp add: download_loop_sequential assms)
  from download_loop_paths [OF this] show ?thesis by simp
qed

lemma dataset_size_missing:
  "dataset_size s3 f dir l acc = Inr n \<Longrightarrow>
     n = acc + sum_list (map (\<lambda>u. case info_size s3 u of Inl e \<Rightarrow> 0 | Inr k \<Rightarrow> k)
                          (filter (\<lambda>u. \<not> isfile f (join dir [basename u])) l))"
proof (induction l arbitrary: acc)
  case Nil
  then show ?case by simp
next
  case (Cons u l)
  show ?case
  proof (cases "isfile f (join dir [basename u])")
    case True
    with Cons.prems have "dataset_size s3 f dir l acc = Inr n" by simp
    from Cons.IH [OF this] True show ?thesis by simp
  next
    case False
    with Cons.prems obtain k where k: "info_size s3 u = Inr k"
      and rest: "dataset_size s3 f dir l (acc + k) = Inr n"
      by (auto split: sum.splits)
    from Cons.IH [OF rest] False k show ?thesis by simp
  qed
qed

lemma sizes_loop_pins:
  "sizes_loop ev s3 names sd ed si rd sizes all w = Some (Inr (sizes', all'), w') \<Longrightarrow>
     \<exists>ls. all' = all @ ls
          \<and> list_all2 (\<lambda>name l. ecco_podaac_s3_query ev name sd ed si = Some (Inr l)) names ls
          \<and> sizes' = sizes @ required_bytes ev s3 rd (zip names ls) (fs w)"
proof (induction names arbitrary: sizes all w)
  case Nil
  then show ?case by simp
next
  case (Cons name names)
  from Cons.prems obtain fl f' n where
    q: "ecco_podaac_s3_query ev name sd ed si = Some (Inr fl)"
    and mk: "mkdir ev (path_div ev rd name) (fs w) = (None, f')"
    and ds: "dataset_size s3 f' (path_div ev rd name) fl 0 = Inr n"
    and rest: "sizes_loop ev s3 names sd ed si rd (sizes @ [n]) (all @ [fl]) (w\<lparr>fs := f'\<rparr>)
       = Some (Inr (sizes', all'), w')"
    by (auto split: option.splits sum.splits prod.splits)
  from Cons.IH [OF rest] obtain ls where
    a: "all' = (all @ [fl]) @ ls"
    and l: "list_all2 (\<lambda>name l. ecco_podaac_s3_query ev name sd ed si = Some (Inr l)) names ls"
    and s: "sizes' = (sizes @ [n]) @ required_bytes ev s3 rd (zip names ls) (fs (w\<lparr>fs := f'\<rparr>))"
    by blast
  from dataset_size_missing [OF ds] mk
  have n: "required_bytes ev s3 rd (zip (name # names) (fl # ls)) (fs w)
      = n # required_bytes ev s3 rd (zip names ls) f'"
    by simp
  have "all' = all @ (fl # ls)" using a by simp
  moreover have "list_all2 (\<lambda>name l. ecco_podaac_s3_query ev name sd ed si = Some (Inr l))
      (name # names) (fl # ls)"
    using q l by simp
  moreover have "sizes' = sizes @ required_bytes ev s3 rd (zip (name # names) (fl # ls)) (fs w)"
    unfolding n using s by simp
  ultimately show ?case by blast
qed

lemma download_datasets_each:
  "download_datasets ev s3 pairs rd n force acc w =
     (case download_each ev s3 rd force pairs w of
        (Inl e, w') \<Rightarrow> (Inl e, w')
      | (Inr got, w') \<Rightarrow>
          (Inr (foldl (\<lambda>d (k, v). dict_set d k v) acc
                  (map (\<lambda>(name, paths). (name, Downloaded (collapse paths))) got)), w'))"
proof (induction pairs arbitrary: acc w)
  case Nil
  show ?case by simp
next
  case (Cons p pairs)
  obtain name fl where p: "p = (name, fl)" by (cases p)
  show ?case
    unfolding p
    by (simp add: wrapper_fallback Cons.IH split: prod.splits sum.splits)
qed

lemma open_files_all:
  "open_files s3 l = all_or_first_error (map (s3_open s3) l)"
  by (induction l) (simp_all split: sum.splits)

lemma open_datasets_each:
  "open_datasets s3 pairs acc =
     (case open_each s3 pairs of
        Inl e \<Rightarrow> Inl e
      | Inr got \<Rightarrow>
          Inr (foldl (\<lambda>d (k, v). dict_set d k v) acc
                 (map (\<lambda>(name, handles). (name, Opened (collapse handles))) got)))"
proof (induction pairs arbitrary: acc)
  case Nil
  show ?case by simp
next
  case (Cons p pairs)
  obtain name fl where p: "p = (name, fl)" by (cases p)
  show ?case
    unfolding p
    by (simp add: open_files_all Cons.IH del: open_files.simps split: sum.splits)
qed

lemma download_each_paths:
  "download_each ev s3 rd force pairs w = (Inr got, w') \<Longrightarrow>
     got = map (\<lambda>(name, l). (name, map (\<lambda>u. join (path_div ev rd name) [basename u]) l)) pairs"
proof (induction pairs arbitrary: got w)
  case Nil
  then show ?case by simp
next
  case (Cons p pairs)
  obtain name fl where p: "p = (name, fl)" by (cases p)
  from Cons.prems p obtain paths w1 got' where
    sq: "sequential_downloads s3 fl (path_div ev rd name) force w = (Inr paths, w1)"
    and rest: "download_each ev s3 rd force pairs w1 = (Inr got', w')"
    and got: "got = (name, paths) # got'"
    by (auto split: prod.splits sum.splits)
  from sequential_downloads_paths [OF sq] Cons.IH [OF rest] got p show ?case by simp
qed

lemma all_or_first_error_values:
  "all_or_first_error (map f xs) = Inr vs \<Longrightarrow> vs = map (\<lambda>x. projr (f x)) xs"
proof (induction xs arbitrary: vs)
  case Nil
  then show ?case by simp
next
  case (Cons x xs)
  from Cons.prems obtain v vs' where "f x = Inr v"
    and "all_or_first_error (map f xs) = Inr vs'" and "vs = v # vs'"
    by (cases "f x") (auto split: sum.splits)
  with Cons.IH [of vs'] show ?case by simp
qed

lemma open_each_handles:
  "open_each s3 pairs = Inr got \<Longrightarrow>
     got = map (\<lambda>(name, l). (name, map (\<lambda>u. projr (s3_open s3 u)) l)) pairs"
proof (induction pairs arbitrary: got)
  case Nil
  then show ?case by simp
next
  case (Cons p pairs)
  obtain name fl where p: "p = (name, fl)" by (cases p)
  from Cons.prems p obtain handles got' where
    h: "all_or_first_error (map (s3_open s3) fl) = Inr handles"
    and rest: "open_each s3 pairs = Inr got'"
    and got: "got = (name, handles) # got'"
    by (auto split: sum.splits)
  from all_or_first_error_values [OF h] Cons.IH [OF rest] got p show ?case by simp
qed

lemma within_budget_iff:
  "0 < avail_storage \<Longrightarrow>
     within_budget sizes_sum avail_storage f = (of_nat sizes_sum \<le> f * of_nat avail_storage)"
  by (simp add: within_budget_def pos_divide_le_eq)

lemma example_loop:
  "granules_loop (example_env single_page b s f) ps [] [] []
   = Some (Inr ([ns_of_day 8035],
        [''s3://podaac/SSH_snap_1992-01-01T000000_ECCO_V4r4.nc''], [p_temporal ps]))"
  apply (subst granules_loop.simps)
  apply (simp add: example_env_def single_page_def granule_def s3_link_def https_link_def example_day_def)
  done

lemma example_query:
  "\<not> str_in ''SNAPSHOT'' name \<Longrightarrow>
   ecco_podaac_s3_query (example_env single_page False s f) name sd ed si
   = Some (Inr [''s3://podaac/SSH_snap_1992-01-01T000000_ECCO_V4r4.nc''])"
proof -
  assume n: "\<not> str_in ''SNAPSHOT'' name"
  have da: "date_adjustment (example_env single_page False s f) = (\<lambda>n sd ed. Inr (sd, ed, False))"
    and lg: "setup_earthdata_login_auth (example_env single_page False s f) = None"
    by (simp_all add: example_env_def)
  show ?thesis
    unfolding ecco_podaac_s3_query_def get_granules_def da lg
    by (simp add: example_loop n)
qed

lemma example_sizes:
  "sizes_loop (example_env single_page False s f) (example_store s)
      [''ECCO_L4_SSH_05DEG_MONTHLY_V4R4'', ''ECCO_L4_OBP_05DEG_MONTHLY_V4R4'']
      sd ed si ''/data'' [] [] example_machine
   = Some (Inr ([s, s],
        [[''s3://podaac/SSH_snap_1992-01-01T000000_ECCO_V4r4.nc''],
         [''s3://podaac/SSH_snap_1992-01-01T000000_ECCO_V4r4.nc'']]), example_machine_two)"
proof -
  let ?E = "example_env single_page False s f"
  have pd: "path_div ?E = (\<lambda>r n. join r [n])"
    and mk: "mkdir ?E = (\<lambda>d f. (None, f\<lparr>dirs := insert d (insert (fst (split_path d)) (dirs f))\<rparr>))"
    by (simp_all add: example_env_def)
  have q1: "ecco_podaac_s3_query ?E ''ECCO_L4_SSH_05DEG_MONTHLY_V4R4'' sd ed si
      = Some (Inr [''s3://podaac/SSH_snap_1992-01-01T000000_ECCO_V4r4.nc''])"
    by (rule example_query) simp
  have q2: "ecco_podaac_s3_query ?E ''ECCO_L4_OBP_05DEG_MONTHLY_V4R4'' sd ed si
      = Some (Inr [''s3://podaac/SSH_snap_1992-01-01T000000_ECCO_V4r4.nc''])"
    by (rule example_query) simp
  have j1: "join ''/data'' [''ECCO_L4_SSH_05DEG_MONTHLY_V4R4''] = ''/data/ECCO_L4_SSH_05DEG_MONTHLY_V4R4''"
    and j2: "join ''/data'' [''ECCO_L4_OBP_05DEG_MONTHLY_V4R4''] = ''/data/ECCO_L4_OBP_05DEG_MONTHLY_V4R4''"
    by (simp_all add: join_def join_step_def)
  have sp1: "fst (split_path ''/data/ECCO_L4_SSH_05DEG_MONTHLY_V4R4'') = ''/data''"
    and sp2: "fst (split_path ''/data/ECCO_L4_OBP_05DEG_MONTHLY_V4R4'') = ''/data''"
    by (simp_all add: split_path_def basename_def rstrip_slash_def)
  show ?thesis
    unfolding sizes_loop.simps q1 q2 pd mk j1 j2
    by (auto simp: sp1 sp2 isfile_def example_machine_def example_machine_two_def
          example_store_def)
qed

lemma example_probe:
  "query_disk (disk_usage_free (example_env single_page False s f) (fs example_machine_two))
     ''/data'' = Some (Inr f)"
  by (subst query_disk.simps) (simp add: example_env_def example_machine_two_def)

lemma example_open_two:
  "open_datasets (example_store s)
     [(''ECCO_L4_SSH_05DEG_MONTHLY_V4R4'',
         [''s3://podaac/SSH_snap_1992-01-01T000000_ECCO_V4r4.nc'']),
      (''ECCO_L4_OBP_05DEG_MONTHLY_V4R4'',
         [''s3://podaac/SSH_snap_1992-01-01T000000_ECCO_V4r4.nc''])] []
   = Inr [(''ECCO_L4_SSH_05DEG_MONTHLY_V4R4'',
             Opened (Scalar (S3File ''s3://podaac/SSH_snap_1992-01-01T000000_ECCO_V4r4.nc''))),
          (''ECCO_L4_OBP_05DEG_MONTHLY_V4R4'',
             Opened (Scalar (S3File ''s3://podaac/SSH_snap_1992-01-01T000000_ECCO_V4r4.nc'')))]"
  by (simp add: example_store_def collapse_def)

lemma example_download_two:
  "fst (download_datasets (example_env single_page False s f) (example_store s)
     [(''ECCO_L4_SSH_05DEG_MONTHLY_V4R4'',
         [''s3://podaac/SSH_snap_1992-01-01T000000_ECCO_V4r4.nc'']),
      (''ECCO_L4_OBP_05DEG_MONTHLY_V4R4'',
         [''s3://podaac/SSH_snap_1992-01-01T000000_ECCO_V4r4.nc''])]
     ''/data'' 6 False [] example_machine_two)
   = Inr [(''ECCO_L4_SSH_05DEG_MONTHLY_V4R4'',
             Downloaded (Scalar ''/data/ECCO_L4_SSH_05DEG_MONTHLY_V4R4/SSH_snap_1992-01-01T000000_ECCO_V4r4.nc'')),
          (''ECCO_L4_OBP_05DEG_MONTHLY_V4R4'',
             Downloaded (Scalar ''/data/ECCO_L4_OBP_05DEG_MONTHLY_V4R4/SSH_snap_1992-01-01T000000_ECCO_V4r4.nc''))]"
proof -
  have pd: "path_div (example_env single_page False s f) = (\<lambda>r n. join r [n])"
    by (simp add: example_env_def)
  show ?thesis
    by (simp add: pd download_files_s3_wrapper_def concurrently_raises download_file_def
          isdir_def isfile_def example_store_def example_machine_two_def collapse_def
          join_def join_step_def basename_def Let_def)
qed

lemma example_dispatch:
  "map_option fst
     (ecco_podaac_s3_get_diskaware (example_env single_page False s f)
        [''ECCO_L4_SSH_05DEG_MONTHLY_V4R4'', ''ECCO_L4_OBP_05DEG_MONTHLY_V4R4'']
        sd ed None (Some ''/data'') fraction 6 False example_machine)
   = (if within_budget (s + s) f (clamp_frac fraction)
      then Some (Inr (Retrieved
        [(''ECCO_L4_SSH_05DEG_MONTHLY_V4R4'',
            Downloaded (Scalar ''/data/ECCO_L4_SSH_05DEG_MONTHLY_V4R4/SSH_snap_1992-01-01T000000_ECCO_V4r4.nc'')),
         (''ECCO_L4_OBP_05DEG_MONTHLY_V4R4'',
            Downloaded (Scalar ''/data/ECCO_L4_OBP_05DEG_MONTHLY_V4R4/SSH_snap_1992-01-01T000000_ECCO_V4r4.nc''))]))
      else Some (Inr (Retrieved
        [(''ECCO_L4_SSH_05DEG_MONTHLY_V4R4'',
            Opened (Scalar (S3File ''s3://podaac/SSH_snap_1992-01-01T000000_ECCO_V4r4.nc''))),
         (''ECCO_L4_OBP_05DEG_MONTHLY_V4R4'',
            Opened (Scalar (S3File ''s3://podaac/SSH_snap_1992-01-01T000000_ECCO_V4r4.nc'')))])))"
proof -
  let ?E = "example_env single_page False s f"
  have i: "init_S3FileSystem ?E = Inr (example_store s)"
    by (simp add: example_env_def)
  obtain res w2 where dl: "download_datasets ?E (example_store s)
     [(''ECCO_L4_SSH_05DEG_MONTHLY_V4R4'',
         [''s3://podaac/SSH_snap_1992-01-01T000000_ECCO_V4r4.nc'']),
      (''ECCO_L4_OBP_05DEG_MONTHLY_V4R4'',
         [''s3://podaac/SSH_snap_1992-01-01T000000_ECCO_V4r4.nc''])]
     ''/data'' 6 False [] example_machine_two = (res, w2)"
    by (cases "download_datasets ?E (example_store s)
     [(''ECCO_L4_SSH_05DEG_MONTHLY_V4R4'',
         [''s3://podaac/SSH_snap_1992-01-01T000000_ECCO_V4r4.nc'']),
      (''ECCO_L4_OBP_05DEG_MONTHLY_V4R4'',
         [''s3://podaac/SSH_snap_1992-01-01T000000_ECCO_V4r4.nc''])]
     ''/data'' 6 False [] example_machine_two")
  with example_download_two [of s f] have res: "res = Inr
        [(''ECCO_L4_SSH_05DEG_MONTHLY_V4R4'',
            Downloaded (Scalar ''/data/ECCO_L4_SSH_05DEG_MONTHLY_V4R4/SSH_snap_1992-01-01T000000_ECCO_V4r4.nc'')),
         (''ECCO_L4_OBP_05DEG_MONTHLY_V4R4'',
            Downloaded (Scalar ''/data/ECCO_L4_OBP_05DEG_MONTHLY_V4R4/SSH_snap_1992-01-01T000000_ECCO_V4r4.nc''))]"
    by simp
  show ?thesis
    unfolding ecco_podaac_s3_get_diskaware_def i
    by (simp add: Let_def example_sizes example_probe example_open_two dl res
          del: sizes_loop.simps download_datasets.simps open_datasets.simps)
qed

lemma full_disk_opens_remotely:
  "\<not> within_budget 0 0 (clamp_frac max_avail_frac)"
  by (simp add: within_budget_def)

lemma example_download_each:
  "download_each (example_env single_page False s f) (example_store s) ''/data'' False
     [(''ECCO_L4_SSH_05DEG_MONTHLY_V4R4'',
         [''s3://podaac/SSH_snap_1992-01-01T000000_ECCO_V4r4.nc'']),
      (''ECCO_L4_OBP_05DEG_MONTHLY_V4R4'',
         [''s3://podaac/SSH_snap_1992-01-01T000000_ECCO_V4r4.nc''])]
     example_machine_two
   = (Inr [(''ECCO_L4_SSH_05DEG_MONTHLY_V4R4'',
             [''/data/ECCO_L4_SSH_05DEG_MONTHLY_V4R4/SSH_snap_1992-01-01T000000_ECCO_V4r4.nc'']),
           (''ECCO_L4_OBP_05DEG_MONTHLY_V4R4'',
             [''/data/ECCO_L4_OBP_05DEG_MONTHLY_V4R4/SSH_snap_1992-01-01T000000_ECCO_V4r4.nc''])],
      \<lparr>fs = \<lparr>dirs = {''/data/ECCO_L4_SSH_05DEG_MONTHLY_V4R4'',
                      ''/data/ECCO_L4_OBP_05DEG_MONTHLY_V4R4'', ''/data'', ''/'', ''/home''},
              files = {''/data/ECCO_L4_OBP_05DEG_MONTHLY_V4R4/SSH_snap_1992-01-01T000000_ECCO_V4r4.nc'',
                       ''/data/ECCO_L4_SSH_05DEG_MONTHLY_V4R4/SSH_snap_1992-01-01T000000_ECCO_V4r4.nc''}\<rparr>,
        net_log =
          [(''s3://podaac/SSH_snap_1992-01-01T000000_ECCO_V4r4.nc'',
            ''/data/ECCO_L4_SSH_05DEG_MONTHLY_V4R4/SSH_snap_1992-01-01T000000_ECCO_V4r4.nc''),
           (''s3://podaac/SSH_snap_1992-01-01T000000_ECCO_V4r4.nc'',
            ''/data/ECCO_L4_OBP_05DEG_MONTHLY_V4R4/SSH_snap_1992-01-01T000000_ECCO_V4r4.nc'')]\<rparr>)"
proof -
  have pd: "path_div (example_env single_page False s f) = (\<lambda>r n. join r [n])"
    by (simp add: example_env_def)
  show ?thesis
    by (simp add: pd download_file_def isdir_def isfile_def example_store_def
          example_machine_two_def join_def join_step_def basename_def Let_def)
qed

lemma example_open_each:
  "open_each (example_store s)
     [(''ECCO_L4_SSH_05DEG_MONTHLY_V4R4'',
         [''s3://podaac/SSH_snap_1992-01-01T000000_ECCO_V4r4.nc'']),
      (''ECCO_L4_OBP_05DEG_MONTHLY_V4R4'',
         [''s3://podaac/SSH_snap_1992-01-01T000000_ECCO_V4r4.nc''])]
   = Inr [(''ECCO_L4_SSH_05DEG_MONTHLY_V4R4'',
             [S3File ''s3://podaac/SSH_snap_1992-01-01T000000_ECCO_V4r4.nc'']),
          (''ECCO_L4_OBP_05DEG_MONTHLY_V4R4'',
             [S3File ''s3://podaac/SSH_snap_1992-01-01T000000_ECCO_V4r4.nc''])]"
  by (simp add: example_store_def)

text \<open>
  C7, as the code has it. Let the fraction be \<^verbatim>\<open>max_avail_frac\<close> clamped into
  \<open>[0, 0.9]\<close>, let the sizing loop return and the probe report a positive number of
  free bytes. The candidates of each dataset are the result of its catalog query, and
  the sizes are the bytes of the candidates that are not yet files of the dataset's
  directory. When the sizes add up to at most the fraction of the free bytes, the call
  does what downloading every candidate of every dataset in turn does: it raises the
  first exception of a transfer, or returns the dictionary that gives each dataset
  the local paths of all its candidates. Otherwise it transfers nothing and opens
  every candidate of every dataset on the store: it raises the first exception of an
  opening, or returns the dictionary that gives each dataset the handles of all its
  candidates. One comparison decides for all the datasets. With 100 GB free and the
  fraction 0.5, two datasets of 20 GB each are both downloaded, and two datasets of
  30 GB each are both opened, although each alone is below 50 GB.
\<close>

theorem dispatch_is_global:
  assumes init: "init_S3FileSystem ev = Inr s3"
    and interval: "interval =
                     (case snapshot_interval of
                        None \<Rightarrow> if list_ex (str_in ''DAILY'') ShortNames
                                then ''daily'' else ''monthly''
                      | Some i \<Rightarrow> i)"
    and root: "root_dir = (case download_root_dir of None \<Rightarrow> default_root ev | Some d \<Rightarrow> d)"
    and sizes: "sizes_loop ev s3 ShortNames StartDate EndDate interval root_dir [] [] w
                = Some (Inr (dataset_sizes, s3_files_list_all), w1)"
    and probe: "query_disk (disk_usage_free ev (fs w1)) root_dir = Some (Inr avail_storage)"
    and free: "0 < avail_storage"
    and fraction: "fraction = min (max max_avail_frac 0) (9 / 10)"
    and budget: "affordable = (of_nat (sum_list dataset_sizes) \<le> fraction * of_nat avail_storage)"
  shows "list_all2
           (\<lambda>name candidates.
              ecco_podaac_s3_query ev name StartDate EndDate interval = Some (Inr candidates))
           ShortNames s3_files_list_all
    \<and> dataset_sizes
        = required_bytes ev s3 root_dir (zip ShortNames s3_files_list_all) (fs w)
    \<and> ecco_podaac_s3_get_diskaware ev ShortNames StartDate EndDate snapshot_interval
          download_root_dir max_avail_frac n_workers force_redownload w
        = (if affordable
           then (case download_each ev s3 root_dir force_redownload
                        (zip ShortNames s3_files_list_all) w1 of
                   (Inl e, w2) \<Rightarrow> Some (Inl e, w2)
                 | (Inr got, w2) \<Rightarrow>
                     Some (Inr (Retrieved
                                  (dict_of (map (\<lambda>(name, paths).
                                                   (name, Downloaded (collapse paths))) got))),
                           w2))
           else (case open_each s3 (zip ShortNames s3_files_list_all) of
                   Inl e \<Rightarrow> Some (Inl e, w1)
                 | Inr got \<Rightarrow>
                     Some (Inr (Retrieved
                                  (dict_of (map (\<lambda>(name, handles).
                                                   (name, Opened (collapse handles))) got))),
                           w1)))
    \<and> (\<forall>d w2.
          ecco_podaac_s3_get_diskaware ev ShortNames StartDate EndDate snapshot_interval
            download_root_dir max_avail_frac n_workers force_redownload w
          = Some (Inr (Retrieved d), w2) \<longrightarrow>
          d = dict_of
                (map (\<lambda>(name, candidates).
                        (name,
                         if affordable
                         then Downloaded
                                (collapse (map (\<lambda>u. join (path_div ev root_dir name) [basename u])
                                             candidates))
                         else Opened (collapse (map (\<lambda>u. projr (s3_open s3 u)) candidates))))
                   (zip ShortNames s3_files_list_all)))"
proof -
  let ?pairs = "zip ShortNames s3_files_list_all"
  let ?R = "ecco_podaac_s3_get_diskaware ev ShortNames StartDate EndDate snapshot_interval
              download_root_dir max_avail_frac n_workers force_redownload w"
  from sizes_loop_pins [OF sizes] have
    cands: "list_all2
           (\<lambda>name candidates.
              ecco_podaac_s3_query ev name StartDate EndDate interval = Some (Inr candidates))
           ShortNames s3_files_list_all"
    and bytes: "dataset_sizes = required_bytes ev s3 root_dir ?pairs (fs w)"
    by simp_all
  have inner: "?R = (if affordable
       then (case download_datasets ev s3 ?pairs root_dir n_workers force_redownload [] w1 of
               (Inl e, w2) \<Rightarrow> Some (Inl e, w2)
             | (Inr d, w2) \<Rightarrow> Some (Inr (Retrieved d), w2))
       else (case open_datasets s3 ?pairs [] of
               Inl e \<Rightarrow> Some (Inl e, w1)
             | Inr d \<Rightarrow> Some (Inr (Retrieved d), w1)))"
    unfolding ecco_podaac_s3_get_diskaware_def init
    using sizes probe
    by (simp add: Let_def interval [symmetric] root [symmetric] budget fraction
          clamp_frac_def within_budget_iff [OF free]
          del: sizes_loop.simps download_datasets.simps open_datasets.simps)
  have R: "?R = (if affordable
           then (case download_each ev s3 root_dir force_redownload ?pairs w1 of
                   (Inl e, w2) \<Rightarrow> Some (Inl e, w2)
                 | (Inr got, w2) \<Rightarrow>
                     Some (Inr (Retrieved
                                  (dict_of (map (\<lambda>(name, paths).
                                                   (name, Downloaded (collapse paths))) got))),
                           w2))
           else (case open_each s3 ?pairs of
                   Inl e \<Rightarrow> Some (Inl e, w1)
                 | Inr got \<Rightarrow>
                     Some (Inr (Retrieved
                                  (dict_of (map (\<lambda>(name, handles).
                                                   (name, Opened (collapse handles))) got))),
                           w1)))"
    unfolding inner download_datasets_each open_datasets_each dict_of_def
    by (simp split: prod.splits sum.splits)
  have vals: "\<forall>d w2. ?R = Some (Inr (Retrieved d), w2) \<longrightarrow>
          d = dict_of
                (map (\<lambda>(name, candidates).
                        (name,
                         if affordable
                         then Downloaded
                                (collapse (map (\<lambda>u. join (path_div ev root_dir name) [basename u])
                                             candidates))
                         else Opened (collapse (map (\<lambda>u. projr (s3_open s3 u)) candidates))))
                   ?pairs)"
  proof (intro allI impI)
    fix d w2
    assume r: "?R = Some (Inr (Retrieved d), w2)"
    show "d = dict_of
                (map (\<lambda>(name, candidates).
                        (name,
                         if affordable
                         then Downloaded
                                (collapse (map (\<lambda>u. join (path_div ev root_dir name) [basename u])
                                             candidates))
                         else Opened (collapse (map (\<lambda>u. projr (s3_open s3 u)) candidates))))
                   ?pairs)"
    proof (cases affordable)
      case True
      with r R obtain got where
        g: "download_each ev s3 root_dir force_redownload ?pairs w1 = (Inr got, w2)"
        and d: "d = dict_of (map (\<lambda>(name, paths). (name, Downloaded (collapse paths))) got)"
        by (auto split: prod.splits sum.splits)
      show ?thesis
        unfolding d download_each_paths [OF g] using True
        by (simp add: case_prod_unfold comp_def)
    next
      case False
      with r R obtain got where
        g: "open_each s3 ?pairs = Inr got"
        and d: "d = dict_of (map (\<lambda>(name, handles). (name, Opened (collapse handles))) got)"
        by (auto split: sum.splits)
      show ?thesis
        unfolding d open_each_handles [OF g] using False
        by (simp add: case_prod_unfold comp_def)
    qed
  qed
  from cands bytes R vals show ?thesis by (intro conjI)
qed

theorem dispatch_is_global_witness:
  "(of_nat (sum_list [21474836480, 21474836480])
      \<le> min (max (1 / 2) 0) (9 / 10) * (of_nat 107374182400 :: rat))
   \<and> ecco_podaac_s3_get_diskaware (example_env single_page False 21474836480 107374182400)
       [''ECCO_L4_SSH_05DEG_MONTHLY_V4R4'', ''ECCO_L4_OBP_05DEG_MONTHLY_V4R4'']
       ''1992-01'' ''1992-01'' None (Some ''/data'') (1 / 2) 6 False example_machine
     = Some (Inr (Retrieved
        [(''ECCO_L4_SSH_05DEG_MONTHLY_V4R4'',
            Downloaded (Scalar ''/data/ECCO_L4_SSH_05DEG_MONTHLY_V4R4/SSH_snap_1992-01-01T000000_ECCO_V4r4.nc'')),
         (''ECCO_L4_OBP_05DEG_MONTHLY_V4R4'',
            Downloaded (Scalar ''/data/ECCO_L4_OBP_05DEG_MONTHLY_V4R4/SSH_snap_1992-01-01T000000_ECCO_V4r4.nc''))]),
        \<lparr>fs = \<lparr>dirs = {''/data/ECCO_L4_SSH_05DEG_MONTHLY_V4R4'',
                        ''/data/ECCO_L4_OBP_05DEG_MONTHLY_V4R4'', ''/data'', ''/'', ''/home''},
                files = {''/data/ECCO_L4_OBP_05DEG_MONTHLY_V4R4/SSH_snap_1992-01-01T000000_ECCO_V4r4.nc'',
                         ''/data/ECCO_L4_SSH_05DEG_MONTHLY_V4R4/SSH_snap_1992-01-01T000000_ECCO_V4r4.nc''}\<rparr>,
          net_log =
            [(''s3://podaac/SSH_snap_1992-01-01T000000_ECCO_V4r4.nc'',
              ''/data/ECCO_L4_SSH_05DEG_MONTHLY_V4R4/SSH_snap_1992-01-01T000000_ECCO_V4r4.nc''),
             (''s3://podaac/SSH_snap_1992-01-01T000000_ECCO_V4r4.nc'',
              ''/data/ECCO_L4_OBP_05DEG_MONTHLY_V4R4/SSH_snap_1992-01-01T000000_ECCO_V4r4.nc'')]\<rparr>)
   \<and> \<not> (of_nat (sum_list [32212254720, 32212254720])
      \<le> min (max (1 / 2) 0) (9 / 10) * (of_nat 107374182400 :: rat))
   \<and> ecco_podaac_s3_get_diskaware (example_env single_page False 32212254720 107374182400)
       [''ECCO_L4_SSH_05DEG_MONTHLY_V4R4'', ''ECCO_L4_OBP_05DEG_MONTHLY_V4R4'']
       ''1992-01'' ''1992-01'' None (Some ''/data'') (1 / 2) 6 False example_machine
     = Some (Inr (Retrieved
        [(''ECCO_L4_SSH_05DEG_MONTHLY_V4R4'',
            Opened (Scalar (S3File ''s3://podaac/SSH_snap_1992-01-01T000000_ECCO_V4r4.nc''))),
         (''ECCO_L4_OBP_05DEG_MONTHLY_V4R4'',
            Opened (Scalar (S3File ''s3://podaac/SSH_snap_1992-01-01T000000_ECCO_V4r4.nc'')))]),
        example_machine_two)"
proof -
  let ?names = "[''ECCO_L4_SSH_05DEG_MONTHLY_V4R4'', ''ECCO_L4_OBP_05DEG_MONTHLY_V4R4'']"
  let ?all = "[[''s3://podaac/SSH_snap_1992-01-01T000000_ECCO_V4r4.nc''],
               [''s3://podaac/SSH_snap_1992-01-01T000000_ECCO_V4r4.nc'']]"
  let ?E20 = "example_env single_page False 21474836480 107374182400"
  let ?E30 = "example_env single_page False 32212254720 107374182400"
  have i20: "init_S3FileSystem ?E20 = Inr (example_store 21474836480)"
    and i30: "init_S3FileSystem ?E30 = Inr (example_store 32212254720)"
    by (simp_all add: example_env_def)
  have iv: "''monthly'' =
      (case None of None \<Rightarrow> if list_ex (str_in ''DAILY'') ?names then ''daily'' else ''monthly''
       | Some i \<Rightarrow> i)"
    by simp
  have r20: "''/data'' = (case Some ''/data'' of None \<Rightarrow> default_root ?E20 | Some d \<Rightarrow> d)"
    and r30: "''/data'' = (case Some ''/data'' of None \<Rightarrow> default_root ?E30 | Some d \<Rightarrow> d)"
    by simp_all
  have free: "0 < (107374182400 :: nat)" by simp
  have fr: "min (max (1 / 2) 0) (9 / 10) = min (max (1 / 2 :: rat) 0) (9 / 10)" ..
  have b20: "of_nat (sum_list [21474836480, 21474836480])
      \<le> min (max (1 / 2) 0) (9 / 10) * (of_nat 107374182400 :: rat)"
    by simp
  have b30: "\<not> (of_nat (sum_list [32212254720, 32212254720])
      \<le> min (max (1 / 2) 0) (9 / 10) * (of_nat 107374182400 :: rat))"
    by simp
  have w20: "True = (of_nat (sum_list [21474836480, 21474836480])
      \<le> min (max (1 / 2) 0) (9 / 10) * (of_nat 107374182400 :: rat))"
    using b20 by simp
  have w30: "False = (of_nat (sum_list [32212254720, 32212254720])
      \<le> min (max (1 / 2) 0) (9 / 10) * (of_nat 107374182400 :: rat))"
    using b30 by simp
  have s20: "sizes_loop ?E20 (example_store 21474836480) ?names ''1992-01'' ''1992-01''
       ''monthly'' ''/data'' [] [] example_machine
     = Some (Inr ([21474836480, 21474836480], ?all), example_machine_two)"
    by (rule example_sizes)
  have s30: "sizes_loop ?E30 (example_store 32212254720) ?names ''1992-01'' ''1992-01''
       ''monthly'' ''/data'' [] [] example_machine
     = Some (Inr ([32212254720, 32212254720], ?all), example_machine_two)"
    by (rule example_sizes)
  have p20: "query_disk (disk_usage_free ?E20 (fs example_machine_two)) ''/data''
      = Some (Inr 107374182400)"
    by (rule example_probe)
  have p30: "query_disk (disk_usage_free ?E30 (fs example_machine_two)) ''/data''
      = Some (Inr 107374182400)"
    by (rule example_probe)
  note t20 = dispatch_is_global [OF i20 iv r20 s20 p20 free fr w20, of 6 False]
  note t30 = dispatch_is_global [OF i30 iv r30 s30 p30 free fr w30, of 6 False]
  have e20: "ecco_podaac_s3_get_diskaware ?E20 ?names
       ''1992-01'' ''1992-01'' None (Some ''/data'') (1 / 2) 6 False example_machine
     = Some (Inr (Retrieved
        [(''ECCO_L4_SSH_05DEG_MONTHLY_V4R4'',
            Downloaded (Scalar ''/data/ECCO_L4_SSH_05DEG_MONTHLY_V4R4/SSH_snap_1992-01-01T000000_ECCO_V4r4.nc'')),
         (''ECCO_L4_OBP_05DEG_MONTHLY_V4R4'',
            Downloaded (Scalar ''/data/ECCO_L4_OBP_05DEG_MONTHLY_V4R4/SSH_snap_1992-01-01T000000_ECCO_V4r4.nc''))]),
        \<lparr>fs = \<lparr>dirs = {''/data/ECCO_L4_SSH_05DEG_MONTHLY_V4R4'',
                        ''/data/ECCO_L4_OBP_05DEG_MONTHLY_V4R4'', ''/data'', ''/'', ''/home''},
                files = {''/data/ECCO_L4_OBP_05DEG_MONTHLY_V4R4/SSH_snap_1992-01-01T000000_ECCO_V4r4.nc'',
                         ''/data/ECCO_L4_SSH_05DEG_MONTHLY_V4R4/SSH_snap_1992-01-01T000000_ECCO_V4r4.nc''}\<rparr>,
          net_log =
            [(''s3://podaac/SSH_snap_1992-01-01T000000_ECCO_V4r4.nc'',
              ''/data/ECCO_L4_SSH_05DEG_MONTHLY_V4R4/SSH_snap_1992-01-01T000000_ECCO_V4r4.nc''),
             (''s3://podaac/SSH_snap_1992-01-01T000000_ECCO_V4r4.nc'',
              ''/data/ECCO_L4_OBP_05DEG_MONTHLY_V4R4/SSH_snap_1992-01-01T000000_ECCO_V4r4.nc'')]\<rparr>)"
    unfolding t20 [THEN conjunct2, THEN conjunct2, THEN conjunct1]
    by (simp add: example_download_each dict_of_def collapse_def
          del: download_each.simps)
  have e30: "ecco_podaac_s3_get_diskaware ?E30 ?names
       ''1992-01'' ''1992-01'' None (Some ''/data'') (1 / 2) 6 False example_machine
     = Some (Inr (Retrieved
        [(''ECCO_L4_SSH_05DEG_MONTHLY_V4R4'',
            Opened (Scalar (S3File ''s3://podaac/SSH_snap_1992-01-01T000000_ECCO_V4r4.nc''))),
         (''ECCO_L4_OBP_05DEG_MONTHLY_V4R4'',
            Opened (Scalar (S3File ''s3://podaac/SSH_snap_1992-01-01T000000_ECCO_V4r4.nc'')))]),
        example_machine_two)"
    unfolding t30 [THEN conjunct2, THEN conjunct2, THEN conjunct1]
    by (simp add: example_open_each dict_of_def collapse_def del: open_each.simps)
  show ?thesis
    by (intro conjI b20 e20 b30 e30)
qed

text \<open>
  The claim as it is worded fails at two inputs. With the fraction that the caller
  passed: for \<^verbatim>\<open>max_avail_frac = 1\<close>, 100 GB free and two datasets of 47 GB each, the
  sum is within \<^verbatim>\<open>max_avail_frac\<close> times the free bytes, and both datasets are opened on
  the store, since line 592 has replaced the fraction by 0.9. On a full disk: for
  \<^verbatim>\<open>max_avail_frac = 0.5\<close>, no free byte and nothing to transfer, the sum 0 is
  within 0.5 times 0, and both datasets are opened on the store, since the quotient of
  line 647 is \<^verbatim>\<open>nan\<close>.
\<close>

theorem unclamped_fraction_counterexample:
  "(of_nat (sum_list [50465865728, 50465865728]) :: rat) \<le> 1 * of_nat 107374182400
   \<and> map_option fst
       (ecco_podaac_s3_get_diskaware (example_env single_page False 50465865728 107374182400)
          [''ECCO_L4_SSH_05DEG_MONTHLY_V4R4'', ''ECCO_L4_OBP_05DEG_MONTHLY_V4R4'']
          ''1992-01'' ''1992-01'' None (Some ''/data'') 1 6 False example_machine)
     = Some (Inr (Retrieved
        [(''ECCO_L4_SSH_05DEG_MONTHLY_V4R4'',
            Opened (Scalar (S3File ''s3://podaac/SSH_snap_1992-01-01T000000_ECCO_V4r4.nc''))),
         (''ECCO_L4_OBP_05DEG_MONTHLY_V4R4'',
            Opened (Scalar (S3File ''s3://podaac/SSH_snap_1992-01-01T000000_ECCO_V4r4.nc'')))]))
   \<and> (of_nat (sum_list [0, 0]) :: rat) \<le> (1 / 2) * of_nat 0
   \<and> map_option fst
       (ecco_podaac_s3_get_diskaware (example_env single_page False 0 0)
          [''ECCO_L4_SSH_05DEG_MONTHLY_V4R4'', ''ECCO_L4_OBP_05DEG_MONTHLY_V4R4'']
          ''1992-01'' ''1992-01'' None (Some ''/data'') (1 / 2) 6 False example_machine)
     = Some (Inr (Retrieved
        [(''ECCO_L4_SSH_05DEG_MONTHLY_V4R4'',
            Opened (Scalar (S3File ''s3://podaac/SSH_snap_1992-01-01T000000_ECCO_V4r4.nc''))),
         (''ECCO_L4_OBP_05DEG_MONTHLY_V4R4'',
            Opened (Scalar (S3File ''s3://podaac/SSH_snap_1992-01-01T000000_ECCO_V4r4.nc'')))]))"
proof -
  have a: "(of_nat (sum_list [50465865728, 50465865728]) :: rat) \<le> 1 * of_nat 107374182400"
    by simp
  have b: "map_option fst
       (ecco_podaac_s3_get_diskaware (example_env single_page False 50465865728 107374182400)
          [''ECCO_L4_SSH_05DEG_MONTHLY_V4R4'', ''ECCO_L4_OBP_05DEG_MONTHLY_V4R4'']
          ''1992-01'' ''1992-01'' None (Some ''/data'') 1 6 False example_machine)
     = Some (Inr (Retrieved
        [(''ECCO_L4_SSH_05DEG_MONTHLY_V4R4'',
            Opened (Scalar (S3File ''s3://podaac/SSH_snap_1992-01-01T000000_ECCO_V4r4.nc''))),
         (''ECCO_L4_OBP_05DEG_MONTHLY_V4R4'',
            Opened (Scalar (S3File ''s3://podaac/SSH_snap_1992-01-01T000000_ECCO_V4r4.nc'')))]))"
    unfolding example_dispatch by (simp add: within_budget_def clamp_frac_def)
  have c: "(of_nat (sum_list [0, 0]) :: rat) \<le> (1 / 2) * of_nat 0"
    by simp
  have d: "map_option fst
       (ecco_podaac_s3_get_diskaware (example_env single_page False 0 0)
          [''ECCO_L4_SSH_05DEG_MONTHLY_V4R4'', ''ECCO_L4_OBP_05DEG_MONTHLY_V4R4'']
          ''1992-01'' ''1992-01'' None (Some ''/data'') (1 / 2) 6 False example_machine)
     = Some (Inr (Retrieved
        [(''ECCO_L4_SSH_05DEG_MONTHLY_V4R4'',
            Opened (Scalar (S3File ''s3://podaac/SSH_snap_1992-01-01T000000_ECCO_V4r4.nc''))),
         (''ECCO_L4_OBP_05DEG_MONTHLY_V4R4'',
            Opened (Scalar (S3File ''s3://podaac/SSH_snap_1992-01-01T000000_ECCO_V4r4.nc'')))]))"
    unfolding example_dispatch by (simp add: within_budget_def)
  from a b c d show ?thesis by (intro conjI)
qed

end
